theory Spec2Isabelle
  imports Complex_Main "HOL-Library.AList" "HOL-Library.Char_ord" "HOL-Library.List_Lexorder"
begin

section \<open>Values, styles, cells and worksheets\<close>

text \<open>
  The two entry points \<^verbatim>\<open>work_log.py\<close> and \<^verbatim>\<open>automate_excel.py\<close> build a workbook
  with the spreadsheet library. Definitions with the suffix \<open>_wl\<close> embed the functions of
  \<^verbatim>\<open>work_log.py\<close>, those with the suffix \<open>_ae\<close> the functions of
  \<^verbatim>\<open>automate_excel.py\<close>; a definition with no suffix embeds a function whose text is
  the same in both files.

  Python strings are modelled as \<open>string\<close> (byte lists, UTF-8); Python integers as
  \<open>int\<close>; a float (the hourly rate) is carried as a \<open>real\<close> and never computed with.
\<close>

datatype date = Date (year: int) (month: int) (day: int)

text \<open>
  The values a cell or a record field can hold. \<open>PNaN\<close> is the float that a blank field
  of an ingested file becomes; \<open>PDate\<close> is a \<^verbatim>\<open>datetime.date\<close>, as the \<^verbatim>\<open>Date\<close> column
  holds them.
\<close>

datatype pyval = PNone | PStr string | PInt int | PFloat real | PNaN | PDate date

datatype error = AttributeError | ValueError | TypeError | KeyError | SystemExit |
  IllegalCharacterError

text \<open>
  A font, with the attributes the program can tell apart: \<^verbatim>\<open>Font(color="008000")\<close> is a
  font with that colour and every other attribute unset.
\<close>

datatype font = Font (f_name: "string option") (f_size: "nat option") (f_bold: bool)
  (f_color: "string option")

definition Font_color :: "string \<Rightarrow> font" where
  "Font_color c = Font None None False (Some c)"

definition green_font :: font where
  "green_font = Font_color ''008000''"

definition red_font :: font where
  "red_font = Font_color ''FF0000''"

text \<open>
  A number format: the library's \<^verbatim>\<open>General\<close>, the format \<^verbatim>\<open>yyyy-mm-dd\<close> that it gives
  to a cell holding a date, or another one. \<open>is_date_format\<close> is the library's test of
  the same name; for another format it is a property of the format's text, carried here
  with the format's identifier.
\<close>

datatype num_format = General | FORMAT_DATE_YYYYMMDD2 | OtherFormat bool nat

fun is_date_format :: "num_format \<Rightarrow> bool" where
  "is_date_format General = False"
| "is_date_format FORMAT_DATE_YYYYMMDD2 = True"
| "is_date_format (OtherFormat b n) = b"

text \<open>
  The style of a cell: the six attributes that \<^verbatim>\<open>copy_cell_style\<close> copies. Border, fill,
  protection and alignment are opaque identifiers (0 is the default).
\<close>

record cell_style =
  font :: font
  border :: nat
  fill :: nat
  number_format :: num_format
  protection :: nat
  alignment :: nat

definition default_font :: font where
  "default_font = Font (Some ''Calibri'') (Some 11) False None"

definition default_style :: cell_style where
  "default_style = \<lparr>font = default_font, border = 0, fill = 0, number_format = General,
     protection = 0, alignment = 0\<rparr>"

text \<open>
  A cell object is either an ordinary \<^verbatim>\<open>Cell\<close>, with a value and a style, or a
  \<^verbatim>\<open>MergedCell\<close>, which has a style only: its value is always \<^verbatim>\<open>None\<close> and assigning
  to it raises \<^verbatim>\<open>AttributeError\<close>. The test \<^verbatim>\<open>isinstance(cell, MergedCell)\<close> of the
  source is \<open>is_MergedCell\<close>.
\<close>

datatype cell = Cell (cvalue: pyval) (cstyle: cell_style) | MergedCell (mstyle: cell_style)

fun is_MergedCell :: "cell \<Rightarrow> bool" where
  "is_MergedCell (MergedCell s) = True"
| "is_MergedCell (Cell v s) = False"

fun value_of :: "cell \<Rightarrow> pyval" where
  "value_of (Cell v s) = v"
| "value_of (MergedCell s) = PNone"

fun style_of :: "cell \<Rightarrow> cell_style" where
  "style_of (Cell v s) = s"
| "style_of (MergedCell s) = s"

fun with_style :: "cell \<Rightarrow> cell_style \<Rightarrow> cell" where
  "with_style (Cell v s) t = Cell v t"
| "with_style (MergedCell s) t = MergedCell t"

definition has_style :: "cell \<Rightarrow> bool" where
  "has_style c = (style_of c \<noteq> default_style)"

text \<open>
  A merged range \<^verbatim>\<open>ws.merged_cells.ranges\<close> is a rectangle; its anchor is the top-left
  cell \<open>(min_row, min_col)\<close>. Cell addresses are pairs \<open>(row, column)\<close>: \<^verbatim>\<open>"B3"\<close> is
  \<open>(3, 2)\<close>.
\<close>

datatype cell_range = CellRange (min_row: int) (min_col: int) (max_row: int) (max_col: int)

definition in_range :: "int \<times> int \<Rightarrow> cell_range \<Rightarrow> bool" where
  "in_range k r = (min_row r \<le> fst k \<and> fst k \<le> max_row r \<and>
                   min_col r \<le> snd k \<and> snd k \<le> max_col r)"

definition anchor :: "cell_range \<Rightarrow> int \<times> int" where
  "anchor r = (min_row r, min_col r)"

text \<open>
  A worksheet: its title, the dictionary \<^verbatim>\<open>_cells\<close> of the cell objects that exist (an
  association list keyed by \<open>(row, column)\<close>, in insertion order), the recorded merged
  ranges, the frozen pane and the visibility state.
\<close>

record worksheet =
  title :: string
  cells :: "((int \<times> int) \<times> cell) list"
  merged_ranges :: "cell_range list"
  freeze_panes :: "(int \<times> int) option"
  sheet_state :: string

definition cell_at :: "worksheet \<Rightarrow> int \<times> int \<Rightarrow> cell" where
  "cell_at ws k = (case map_of (cells ws) k of Some c \<Rightarrow> c | None \<Rightarrow> Cell PNone default_style)"

definition value_at :: "worksheet \<Rightarrow> int \<times> int \<Rightarrow> pyval" where
  "value_at ws k = value_of (cell_at ws k)"

definition style_at :: "worksheet \<Rightarrow> int \<times> int \<Rightarrow> cell_style" where
  "style_at ws k = style_of (cell_at ws k)"

definition merged_at :: "worksheet \<Rightarrow> int \<times> int \<Rightarrow> bool" where
  "merged_at ws k = is_MergedCell (cell_at ws k)"

text \<open>Sequencing of steps that may raise: the first error ends the run.\<close>

definition ebind :: "'e + 'a \<Rightarrow> ('a \<Rightarrow> 'e + 'b) \<Rightarrow> 'e + 'b" where
  "ebind m f = (case m of Inl e \<Rightarrow> Inl e | Inr x \<Rightarrow> f x)"

fun efold :: "('a \<Rightarrow> 's \<Rightarrow> 'e + 's) \<Rightarrow> 'a list \<Rightarrow> 's \<Rightarrow> 'e + 's" where
  "efold f [] s = Inr s"
| "efold f (x # xs) s = (case f x s of Inl e \<Rightarrow> Inl e | Inr s' \<Rightarrow> efold f xs s')"

subsection \<open>The library's cell access\<close>

text \<open>
  \<^verbatim>\<open>ws.cell(row, column)\<close> and \<^verbatim>\<open>ws[ref]\<close> return the cell object at the address and
  create an ordinary empty cell there when none exists; a row or column below 1 and a row
  above 1048576 raise \<^verbatim>\<open>ValueError\<close>, whether or not a cell exists there. The model
  returns the sheet in which the cell exists; the object is then \<open>cell_at\<close> of its
  address.
\<close>

definition MAX_ROW :: int where
  "MAX_ROW = 1048576"

definition ws_cell :: "worksheet \<Rightarrow> int \<times> int \<Rightarrow> error + worksheet" where
  "ws_cell ws k =
     (if fst k < 1 \<or> snd k < 1 \<or> MAX_ROW < fst k then Inl ValueError
      else case map_of (cells ws) k of
             Some c \<Rightarrow> Inr ws
           | None \<Rightarrow> Inr (ws\<lparr>cells := cells ws @ [(k, Cell PNone default_style)]\<rparr>))"

text \<open>
  What the library does with a value that is assigned to an ordinary cell. A string is
  cut to its first 32767 characters and is then refused, with
  \<^verbatim>\<open>IllegalCharacterError\<close>, when it holds one of the control characters 0x00 to 0x08,
  0x0B, 0x0C, 0x0E to 0x1F; every other value is stored as it is. A character is one
  code point: a byte that is not a continuation byte \<open>10xxxxxx\<close>, with the continuation
  bytes that follow it.
\<close>

definition illegal_char :: "char \<Rightarrow> bool" where
  "illegal_char c = (c \<in> set [CHR 0x00, CHR 0x01, CHR 0x02, CHR 0x03, CHR 0x04, CHR 0x05,
     CHR 0x06, CHR 0x07, CHR 0x08, CHR 0x0B, CHR 0x0C, CHR 0x0E, CHR 0x0F, CHR 0x10, CHR 0x11,
     CHR 0x12, CHR 0x13, CHR 0x14, CHR 0x15, CHR 0x16, CHR 0x17, CHR 0x18, CHR 0x19, CHR 0x1A,
     CHR 0x1B, CHR 0x1C, CHR 0x1D, CHR 0x1E, CHR 0x1F])"

definition is_continuation :: "char \<Rightarrow> bool" where
  "is_continuation c = (digit7 c \<and> \<not> digit6 c)"

fun take_chars :: "int \<Rightarrow> string \<Rightarrow> string" where
  "take_chars n [] = []"
| "take_chars n (c # cs) =
     (if is_continuation c then c # take_chars n cs
      else if n \<le> 0 then [] else c # take_chars (n - 1) cs)"

definition check_string :: "string \<Rightarrow> error + string" where
  "check_string s =
     (let t = take_chars 32767 s in
      if list_ex illegal_char t then Inl IllegalCharacterError else Inr t)"

definition bind_value :: "pyval \<Rightarrow> error + pyval" where
  "bind_value v =
     (case v of
        PStr s \<Rightarrow> (case check_string s of Inl e \<Rightarrow> Inl e | Inr t \<Rightarrow> Inr (PStr t))
      | _ \<Rightarrow> Inr v)"

text \<open>A date that is assigned to a cell gives the cell the date format, unless the
  cell's number format is a date format already.\<close>

definition bound_style :: "pyval \<Rightarrow> cell_style \<Rightarrow> cell_style" where
  "bound_style v s =
     (case v of
        PDate d \<Rightarrow> (if is_date_format (number_format s) then s
                    else s\<lparr>number_format := FORMAT_DATE_YYYYMMDD2\<rparr>)
      | _ \<Rightarrow> s)"

text \<open>\<^verbatim>\<open>cell.value = v\<close> on the cell object at address \<open>k\<close>: a merged cell has no
  value that can be assigned.\<close>

definition set_value :: "worksheet \<Rightarrow> int \<times> int \<Rightarrow> pyval \<Rightarrow> error + worksheet" where
  "set_value ws k v =
     (case cell_at ws k of
        MergedCell s \<Rightarrow> Inl AttributeError
      | Cell old s \<Rightarrow>
          (case bind_value v of
             Inl e \<Rightarrow> Inl e
           | Inr v' \<Rightarrow> Inr (ws\<lparr>cells := AList.update k (Cell v' (bound_style v s)) (cells ws)\<rparr>)))"

text \<open>\<^verbatim>\<open>cell.font = f\<close> and the other style assignments: allowed on both kinds of cell.\<close>

definition set_style :: "worksheet \<Rightarrow> int \<times> int \<Rightarrow> cell_style \<Rightarrow> worksheet" where
  "set_style ws k s = ws\<lparr>cells := AList.update k (with_style (cell_at ws k) s) (cells ws)\<rparr>"

definition set_font :: "worksheet \<Rightarrow> int \<times> int \<Rightarrow> font \<Rightarrow> worksheet" where
  "set_font ws k f = set_style ws k ((style_at ws k)\<lparr>font := f\<rparr>)"

text \<open>\<^verbatim>\<open>ws.max_row\<close> and \<^verbatim>\<open>ws.max_column\<close>: the largest row and column of an existing
  cell, 1 for a sheet without cells.\<close>

definition max_row_ws :: "worksheet \<Rightarrow> int" where
  "max_row_ws ws = (case map (\<lambda>p. fst (fst p)) (cells ws) of [] \<Rightarrow> 1 | r # rs \<Rightarrow> fold max rs r)"

definition max_column_ws :: "worksheet \<Rightarrow> int" where
  "max_column_ws ws = (case map (\<lambda>p. snd (fst p)) (cells ws) of [] \<Rightarrow> 1 | r # rs \<Rightarrow> fold max rs r)"

section \<open>Safe cell writing\<close>

text \<open>
  \<^verbatim>\<open>safe_set_cell(ws, cell_ref, value)\<close>, the same in both files. The loop over the
  recorded ranges stops at the first range it meets that contains the address and writes
  its top-left cell; when the cell is a merged cell and no range contains it, the function
  returns without writing. The library keeps the ranges in a set: the list
  \<open>merged_ranges\<close> is that set in the order in which the loop runs through it, an order
  about which nothing is known when two ranges hold the same address.
\<close>

fun find_range :: "cell_range list \<Rightarrow> int \<times> int \<Rightarrow> cell_range option" where
  "find_range [] k = None"
| "find_range (r # rs) k = (if in_range k r then Some r else find_range rs k)"

definition safe_set_cell :: "worksheet \<Rightarrow> int \<times> int \<Rightarrow> pyval \<Rightarrow> error + worksheet" where
  "safe_set_cell ws cell_ref v =
     ebind (ws_cell ws cell_ref) (\<lambda>ws1.
       if is_MergedCell (cell_at ws1 cell_ref) then
         (case find_range (merged_ranges ws1) cell_ref of
            Some r \<Rightarrow> ebind (ws_cell ws1 (anchor r)) (\<lambda>ws2. set_value ws2 (anchor r) v)
          | None \<Rightarrow> Inr ws1)
       else set_value ws1 cell_ref v)"


section \<open>Strings\<close>

text \<open>
  \<^verbatim>\<open>str.lower()\<close> on the ASCII letters. Bytes above 0x7F are left as they are: no
  character outside ASCII lowers to a letter of \<^verbatim>\<open>"yes"\<close> or \<^verbatim>\<open>"no"\<close>, so that the
  comparisons of the program with these two words come out as in Python.
\<close>

definition lower_char :: "char \<Rightarrow> char" where
  "lower_char c =
     (case map_of (zip ''ABCDEFGHIJKLMNOPQRSTUVWXYZ'' ''abcdefghijklmnopqrstuvwxyz'') c of
        Some d \<Rightarrow> d
      | None \<Rightarrow> c)"

definition lower :: "string \<Rightarrow> string" where
  "lower s = map lower_char s"

text \<open>
  \<^verbatim>\<open>str.strip()\<close> removes the white space characters at both ends of a string, those of
  Unicode included. \<open>code_points\<close> cuts a string into its characters, each a byte with
  the continuation bytes that follow it; \<open>whitespace\<close> lists the characters for which
  \<^verbatim>\<open>str.isspace()\<close> holds, in UTF-8: U+0009 to U+000D, U+001C to U+0020, U+0085, U+00A0,
  U+1680, U+2000 to U+200A, U+2028, U+2029, U+202F, U+205F and U+3000.
\<close>

function code_points :: "string \<Rightarrow> string list" where
  "code_points [] = []"
| "code_points (c # cs) =
     (c # takeWhile is_continuation cs) # code_points (dropWhile is_continuation cs)"
  by pat_completeness auto
termination
  by (relation "measure length") (auto simp: less_Suc_eq_le length_dropWhile_le)

definition whitespace :: "string list" where
  "whitespace =
     [[CHR 0x09], [CHR 0x0A], [CHR 0x0B], [CHR 0x0C], [CHR 0x0D],
      [CHR 0x1C], [CHR 0x1D], [CHR 0x1E], [CHR 0x1F], [CHR 0x20],
      [CHR 0xC2, CHR 0x85], [CHR 0xC2, CHR 0xA0], [CHR 0xE1, CHR 0x9A, CHR 0x80],
      [CHR 0xE2, CHR 0x80, CHR 0x80], [CHR 0xE2, CHR 0x80, CHR 0x81],
      [CHR 0xE2, CHR 0x80, CHR 0x82], [CHR 0xE2, CHR 0x80, CHR 0x83],
      [CHR 0xE2, CHR 0x80, CHR 0x84], [CHR 0xE2, CHR 0x80, CHR 0x85],
      [CHR 0xE2, CHR 0x80, CHR 0x86], [CHR 0xE2, CHR 0x80, CHR 0x87],
      [CHR 0xE2, CHR 0x80, CHR 0x88], [CHR 0xE2, CHR 0x80, CHR 0x89],
      [CHR 0xE2, CHR 0x80, CHR 0x8A], [CHR 0xE2, CHR 0x80, CHR 0xA8],
      [CHR 0xE2, CHR 0x80, CHR 0xA9], [CHR 0xE2, CHR 0x80, CHR 0xAF],
      [CHR 0xE2, CHR 0x81, CHR 0x9F], [CHR 0xE3, CHR 0x80, CHR 0x80]]"

definition is_space :: "string \<Rightarrow> bool" where
  "is_space c = (c \<in> set whitespace)"

definition strip :: "string \<Rightarrow> string" where
  "strip s = concat (rev (dropWhile is_space (rev (dropWhile is_space (code_points s)))))"

text \<open>The decimal text of an integer, as an f-string prints it.\<close>

definition digit_char :: "nat \<Rightarrow> char" where
  "digit_char d = ''0123456789'' ! d"

fun str_nat :: "nat \<Rightarrow> string" where
  "str_nat n = (if n < 10 then [digit_char n] else str_nat (n div 10) @ [digit_char (n mod 10)])"

definition str_int :: "int \<Rightarrow> string" where
  "str_int i = (if i < 0 then CHR ''-'' # str_nat (nat (- i)) else str_nat (nat i))"

text \<open>\<^verbatim>\<open>date.strftime("%m-%d-%Y")\<close>: month and day on two digits, the year as the C
  library prints it, with no padding (a year from 1000 on has its four digits).\<close>

definition zero_pad :: "nat \<Rightarrow> string \<Rightarrow> string" where
  "zero_pad w s = replicate (w - length s) CHR ''0'' @ s"

definition strftime_mdY :: "date \<Rightarrow> string" where
  "strftime_mdY d = zero_pad 2 (str_int (month d)) @ ''-'' @ zero_pad 2 (str_int (day d)) @ ''-'' @
                    str_int (year d)"

section \<open>Records of the ingested data\<close>

text \<open>
  A data frame: its column names and its rows; \<^verbatim>\<open>to_dict(orient="records")\<close> gives one
  dictionary per row, here an association list from column name to value.
  \<^verbatim>\<open>df.empty\<close> holds when the frame has no column or no row.
\<close>

type_synonym pyrecord = "(string \<times> pyval) list"

record dataframe =
  df_columns :: "string list"
  df_rows :: "pyrecord list"

definition df_empty :: "dataframe \<Rightarrow> bool" where
  "df_empty df = (df_columns df = [] \<or> df_rows df = [])"

text \<open>\<^verbatim>\<open>rec.get(key, "")\<close>.\<close>

definition rec_get :: "pyrecord \<Rightarrow> string \<Rightarrow> pyval" where
  "rec_get r key = (case map_of r key of Some v \<Rightarrow> v | None \<Rightarrow> PStr [])"

text \<open>\<^verbatim>\<open>data_df[data_df["Date"] == date_obj]\<close>: the rows whose date is the day.\<close>

definition filter_date :: "date \<Rightarrow> pyrecord list \<Rightarrow> pyrecord list" where
  "filter_date d rs = filter (\<lambda>r. map_of r ''Date'' = Some (PDate d)) rs"

definition HEADERS :: "string list" where
  "HEADERS = [''Number'', ''Daily Work Description'', ''Hr'', ''Min'', ''Complete'', ''Follow up'',
              ''Supervisor Comments'']"

fun enumerate_from :: "int \<Rightarrow> 'a list \<Rightarrow> (int \<times> 'a) list" where
  "enumerate_from n [] = []"
| "enumerate_from n (x # xs) = (n, x) # enumerate_from (n + 1) xs"

section \<open>The daily sheet populator of work_log.py\<close>

definition TEMPLATE_STYLE_ROW :: int where
  "TEMPLATE_STYLE_ROW = 7"

text \<open>\<^verbatim>\<open>copy_cell_style(src_cell, dst_cell)\<close>: six assignments, made when the source has
  a style.\<close>

definition copy_cell_style :: "worksheet \<Rightarrow> int \<times> int \<Rightarrow> int \<times> int \<Rightarrow> worksheet" where
  "copy_cell_style ws src dst =
     (if has_style (cell_at ws src) then
        set_style ws dst ((style_at ws dst)\<lparr>
          font := font (style_at ws src),
          border := border (style_at ws src),
          fill := fill (style_at ws src),
          number_format := number_format (style_at ws src),
          protection := protection (style_at ws src),
          alignment := alignment (style_at ws src)\<rparr>)
      else ws)"

text \<open>
  The conditional font of the Complete column in \<^verbatim>\<open>work_log.py\<close>: \<open>Some\<close> the font that
  is assigned, \<open>None\<close> when no branch assigns one.
\<close>

definition complete_font_wl :: "pyval \<Rightarrow> font option" where
  "complete_font_wl val =
     (case val of
        PStr s \<Rightarrow>
          (if lower (strip s) = ''yes'' then Some (Font_color ''008000'')
           else if lower (strip s) = ''no'' then Some (Font_color ''FF0000'')
           else None)
      | _ \<Rightarrow> None)"

text \<open>The body of the inner loop: one field of one record.\<close>

definition write_field_wl :: "int \<Rightarrow> pyrecord \<Rightarrow> int \<times> string \<Rightarrow> worksheet \<Rightarrow> error + worksheet" where
  "write_field_wl current r ck sheet =
     (let col_idx = fst ck; key = snd ck in
      ebind (ws_cell sheet (current, col_idx)) (\<lambda>ws1.
      ebind (set_value ws1 (current, col_idx) (rec_get r key)) (\<lambda>ws2.
      ebind (ws_cell ws2 (TEMPLATE_STYLE_ROW, col_idx)) (\<lambda>ws3.
        let ws4 = copy_cell_style ws3 (TEMPLATE_STYLE_ROW, col_idx) (current, col_idx) in
        Inr (if key = ''Complete'' then
               (case complete_font_wl (rec_get r key) of
                  Some f \<Rightarrow> set_font ws4 (current, col_idx) f
                | None \<Rightarrow> ws4)
             else ws4)))))"

definition write_record_wl :: "int \<Rightarrow> pyrecord \<Rightarrow> worksheet \<Rightarrow> error + worksheet" where
  "write_record_wl current r sheet = efold (write_field_wl current r) (enumerate_from 1 HEADERS) sheet"

fun write_records_wl :: "worksheet \<Rightarrow> int \<Rightarrow> pyrecord list \<Rightarrow> error + worksheet \<times> int" where
  "write_records_wl sheet current [] = Inr (sheet, current)"
| "write_records_wl sheet current (r # rs) =
     (case write_record_wl current r sheet of
        Inl e \<Rightarrow> Inl e
      | Inr sheet' \<Rightarrow> write_records_wl sheet' (current + 1) rs)"

definition records_wl :: "date \<Rightarrow> dataframe \<Rightarrow> pyrecord list" where
  "records_wl date_obj data_df =
     (if \<not> df_empty data_df \<and> ''Date'' \<in> set (df_columns data_df)
      then filter_date date_obj (df_rows data_df)
      else df_rows data_df)"

text \<open>\<^verbatim>\<open>fill_daily_sheet\<close> of \<^verbatim>\<open>work_log.py\<close>: the sheet as written, and the last row.\<close>

definition fill_daily_sheet_wl ::
  "worksheet \<Rightarrow> date \<Rightarrow> dataframe \<Rightarrow> int \<Rightarrow> error + worksheet \<times> int" where
  "fill_daily_sheet_wl sheet date_obj data_df start_row =
     (case write_records_wl sheet start_row (records_wl date_obj data_df) of
        Inl e \<Rightarrow> Inl e
      | Inr (sheet', current) \<Rightarrow> Inr (sheet', current - 1))"

section \<open>The daily sheet populator of automate_excel.py\<close>

text \<open>\<^verbatim>\<open>sheet.cell(row, column).value = v\<close> and \<^verbatim>\<open>sheet[ref] = v\<close>: a plain assignment
  to the addressed cell.\<close>

definition cell_assign :: "worksheet \<Rightarrow> int \<times> int \<Rightarrow> pyval \<Rightarrow> error + worksheet" where
  "cell_assign ws k v = ebind (ws_cell ws k) (\<lambda>ws1. set_value ws1 k v)"

text \<open>\<^verbatim>\<open>sheet.freeze_panes = sheet[ref]\<close>: the pane is read from an ordinary cell's
  coordinate (\<^verbatim>\<open>"A1"\<close> unfreezes); a merged cell is not accepted.\<close>

definition freeze_at_cell :: "worksheet \<Rightarrow> int \<times> int \<Rightarrow> error + worksheet" where
  "freeze_at_cell ws k =
     ebind (ws_cell ws k) (\<lambda>ws1.
       if is_MergedCell (cell_at ws1 k) then Inl TypeError
       else Inr (ws1\<lparr>freeze_panes := (if k = (1, 1) then None else Some k)\<rparr>))"

definition complete_font_ae :: "pyval \<Rightarrow> font option" where
  "complete_font_ae complete_val =
     (case complete_val of
        PStr s \<Rightarrow>
          (if lower s = ''yes'' then Some (Font_color ''008000'')
           else if lower s = ''no'' then Some (Font_color ''FF0000'')
           else None)
      | _ \<Rightarrow> None)"

definition write_record_ae :: "int \<Rightarrow> pyrecord \<Rightarrow> worksheet \<Rightarrow> error + worksheet" where
  "write_record_ae current_row row_dict sheet =
     ebind (cell_assign sheet (current_row, 1) (rec_get row_dict ''Number'')) (\<lambda>ws1.
     ebind (cell_assign ws1 (current_row, 2) (rec_get row_dict ''Daily Work Description'')) (\<lambda>ws2.
     ebind (cell_assign ws2 (current_row, 3) (rec_get row_dict ''Hr'')) (\<lambda>ws3.
     ebind (cell_assign ws3 (current_row, 4) (rec_get row_dict ''Min'')) (\<lambda>ws4.
     ebind (cell_assign ws4 (current_row, 5) (rec_get row_dict ''Complete'')) (\<lambda>ws5.
       let ws6 = (case complete_font_ae (rec_get row_dict ''Complete'') of
                    Some f \<Rightarrow> set_font ws5 (current_row, 5) f
                  | None \<Rightarrow> ws5) in
     ebind (cell_assign ws6 (current_row, 6) (rec_get row_dict ''Follow up'')) (\<lambda>ws7.
     cell_assign ws7 (current_row, 7) (rec_get row_dict ''Supervisor Comments'')))))))"

fun write_records_ae :: "worksheet \<Rightarrow> int \<Rightarrow> pyrecord list \<Rightarrow> error + worksheet \<times> int" where
  "write_records_ae sheet current_row [] = Inr (sheet, current_row)"
| "write_records_ae sheet current_row (r # rs) =
     (case write_record_ae current_row r sheet of
        Inl e \<Rightarrow> Inl e
      | Inr sheet' \<Rightarrow> write_records_ae sheet' (current_row + 1) rs)"

definition records_ae :: "date \<Rightarrow> dataframe \<Rightarrow> bool \<Rightarrow> pyrecord list" where
  "records_ae date_obj data_rows is_dataframe =
     (if is_dataframe \<and> \<not> df_empty data_rows then
        (if ''Date'' \<in> set (df_columns data_rows) then filter_date date_obj (df_rows data_rows)
         else df_rows data_rows)
      else [])"

text \<open>The date stamps of the header block: \<^verbatim>\<open>B1\<close>, and \<^verbatim>\<open>B3\<close> for an empty day with
  a fallback date. \<open>today\<close> is \<^verbatim>\<open>datetime.date.today()\<close>.\<close>

definition stamp_dates_ae ::
  "date \<Rightarrow> worksheet \<Rightarrow> date \<Rightarrow> pyrecord list \<Rightarrow> date option \<Rightarrow> error + worksheet" where
  "stamp_dates_ae today sheet date_obj records fallback_date =
     (if records = [] then
        ebind (cell_assign sheet (1, 2) (PStr (strftime_mdY today))) (\<lambda>ws1.
          case fallback_date of
            Some fd \<Rightarrow> cell_assign ws1 (3, 2) (PStr (strftime_mdY fd))
          | None \<Rightarrow> Inr ws1)
      else cell_assign sheet (1, 2) (PStr (strftime_mdY date_obj)))"

definition write_header_ae :: "int \<times> string \<Rightarrow> worksheet \<Rightarrow> error + worksheet" where
  "write_header_ae ch sheet = cell_assign sheet (6, fst ch) (PStr (snd ch))"

text \<open>\<^verbatim>\<open>fill_daily_sheet\<close> of \<^verbatim>\<open>automate_excel.py\<close>.\<close>

definition fill_daily_sheet_ae ::
  "date \<Rightarrow> worksheet \<Rightarrow> date \<Rightarrow> dataframe \<Rightarrow> bool \<Rightarrow> int \<Rightarrow> date option \<Rightarrow> error + worksheet \<times> int" where
  "fill_daily_sheet_ae today sheet date_obj data_rows is_dataframe start_row fallback_date =
     (let records = records_ae date_obj data_rows is_dataframe in
      ebind (stamp_dates_ae today sheet date_obj records fallback_date) (\<lambda>ws1.
      ebind (freeze_at_cell ws1 (7, 1)) (\<lambda>ws2.
      ebind (efold write_header_ae (enumerate_from 1 HEADERS) ws2) (\<lambda>ws3.
        case write_records_ae ws3 start_row records of
          Inl e \<Rightarrow> Inl e
        | Inr (sheet', current_row) \<Rightarrow> Inr (sheet', current_row - 1)))))"


section \<open>Clearing a copied sheet\<close>

text \<open>
  \<^verbatim>\<open>for row in ws.iter_rows(min_row=m, max_row=ws.max_row): for cell in row: ...\<close>.
  The bounds are read once, when the loop starts; a first row of 0 counts as not given
  and stands for row 1; the columns run from 1 to \<^verbatim>\<open>ws.max_column\<close>. Each row is
  materialised as a tuple of cell objects (created where they do not exist) before the
  inner loop runs over it.
\<close>

definition for_each_cell ::
  "(int \<times> int \<Rightarrow> worksheet \<Rightarrow> error + worksheet) \<Rightarrow> int \<Rightarrow> worksheet \<Rightarrow> error + worksheet" where
  "for_each_cell body min_r ws =
     (let cols = [1..max_column_ws ws];
          rows = [(if min_r = 0 then 1 else min_r)..max_row_ws ws] in
      efold (\<lambda>row w.
               ebind (efold (\<lambda>col w'. ws_cell w' (row, col)) cols w) (\<lambda>w1.
                 efold (\<lambda>col w'. body (row, col) w') cols w1))
            rows ws)"

text \<open>\<^verbatim>\<open>clear_sheet_data\<close> of \<^verbatim>\<open>work_log.py\<close> writes through \<^verbatim>\<open>safe_set_cell\<close>; that of
  \<^verbatim>\<open>automate_excel.py\<close> assigns \<^verbatim>\<open>cell.value = None\<close>.\<close>

definition clear_sheet_data_wl :: "worksheet \<Rightarrow> int \<Rightarrow> error + worksheet" where
  "clear_sheet_data_wl ws start_row = for_each_cell (\<lambda>k w. safe_set_cell w k PNone) start_row ws"

definition clear_sheet_data_ae :: "worksheet \<Rightarrow> int \<Rightarrow> error + worksheet" where
  "clear_sheet_data_ae sheet start_row = for_each_cell (\<lambda>k w. set_value w k PNone) start_row sheet"

section \<open>The header block of work_log.py\<close>

text \<open>\<^verbatim>\<open>apply_consistent_layout(ws, date_label)\<close>; \<open>today\<close> is
  \<^verbatim>\<open>datetime.date.today()\<close>.\<close>

definition write_layout_header :: "int \<times> string \<Rightarrow> worksheet \<Rightarrow> error + worksheet" where
  "write_layout_header ch ws =
     ebind (ws_cell ws (6, fst ch)) (\<lambda>ws1. safe_set_cell ws1 (6, fst ch) (PStr (snd ch)))"

definition apply_consistent_layout :: "date \<Rightarrow> worksheet \<Rightarrow> string \<Rightarrow> error + worksheet" where
  "apply_consistent_layout today ws date_label =
     ebind (safe_set_cell ws (1, 1) (PStr ''DATE'')) (\<lambda>ws1.
     ebind (safe_set_cell ws1 (1, 2) (PStr (strftime_mdY today))) (\<lambda>ws2.
     ebind (safe_set_cell ws2 (2, 1) (PStr ''Daily Recap ( - LA Office )'')) (\<lambda>ws3.
     ebind (safe_set_cell ws3 (3, 1) (PStr ''Date'')) (\<lambda>ws4.
     ebind (safe_set_cell ws4 (3, 2) (PStr date_label)) (\<lambda>ws5.
     ebind (safe_set_cell ws5 (4, 1) (PStr ''Name'')) (\<lambda>ws6.
     ebind (safe_set_cell ws6 (5, 1) (PStr ''Department'')) (\<lambda>ws7.
     ebind (efold write_layout_header (enumerate_from 1 HEADERS) ws7) (\<lambda>ws8.
       Inr (ws8\<lparr>freeze_panes := Some (7, 1)\<rparr>)))))))))"

section \<open>The Total sheet\<close>

text \<open>
  \<^verbatim>\<open>daily_info\<close> is a dictionary from sheet name to \<^verbatim>\<open>(start_row, last_row)\<close>: an
  association list with one entry per key. \<^verbatim>\<open>sorted(daily_info.items())\<close> orders the
  entries by name (the keys of a dictionary differ, so the ranges never decide), strings
  being compared character by character.
\<close>

type_synonym daily_info = "(string \<times> int \<times> int) list"

definition hour_formula :: "string \<Rightarrow> int \<Rightarrow> int \<Rightarrow> string" where
  "hour_formula sheet_name start_row last_row =
     ''=SUM('' @ [CHR 0x27] @ sheet_name @ [CHR 0x27] @ ''!C'' @ str_int start_row @ '':C'' @
     str_int last_row @ '') + '' @
     ''(SUM('' @ [CHR 0x27] @ sheet_name @ [CHR 0x27] @ ''!D'' @ str_int start_row @ '':D'' @
     str_int last_row @ '')/60)''"

definition cost_formula :: "int \<Rightarrow> string" where
  "cost_formula row_idx = ''=C'' @ str_int row_idx @ ''*D'' @ str_int row_idx"

text \<open>The loop over the sorted entries; \<open>row_idx\<close> is the next free row.\<close>

fun write_summary_rows ::
  "worksheet \<Rightarrow> int \<Rightarrow> (string \<times> int \<times> int) list \<Rightarrow> pyval \<Rightarrow> error + worksheet" where
  "write_summary_rows total_sheet row_idx [] rate = Inr total_sheet"
| "write_summary_rows total_sheet row_idx ((sheet_name, start_row, last_row) # items) rate =
     (if last_row < start_row then write_summary_rows total_sheet row_idx items rate
      else
        ebind (safe_set_cell total_sheet (row_idx, 2) (PStr sheet_name)) (\<lambda>ws1.
        ebind (safe_set_cell ws1 (row_idx, 3) (PStr (hour_formula sheet_name start_row last_row))) (\<lambda>ws2.
        ebind (safe_set_cell ws2 (row_idx, 4) rate) (\<lambda>ws3.
        ebind (safe_set_cell ws3 (row_idx, 5) (PStr (cost_formula row_idx))) (\<lambda>ws4.
          write_summary_rows ws4 (row_idx + 1) items rate)))))"

definition sorted_items :: "daily_info \<Rightarrow> (string \<times> int \<times> int) list" where
  "sorted_items daily_info = sort_key fst daily_info"

definition update_total_sheet :: "worksheet \<Rightarrow> daily_info \<Rightarrow> pyval \<Rightarrow> error + worksheet" where
  "update_total_sheet total_sheet daily_info rate =
     ebind (for_each_cell (\<lambda>k w. set_value w k PNone) 4 total_sheet) (\<lambda>ws1.
       write_summary_rows ws1 4 (sorted_items daily_info) rate)"


section \<open>The workbook\<close>

text \<open>
  A workbook is the list of its sheets; a sheet object is referred to by its position.
  \<^verbatim>\<open>wb[name]\<close> is the first sheet with that title and raises \<^verbatim>\<open>KeyError\<close> when there
  is none.

  The library renames a sheet whose requested title clashes with an existing one. The
  helper that picks the replacement name is not part of the program: it is the parameter
  \<open>adn\<close> (from the sheet names and the requested title to the title used) of every
  definition that creates or renames a sheet.
\<close>

type_synonym workbook = "worksheet list"

definition sheetnames :: "workbook \<Rightarrow> string list" where
  "sheetnames wb = map title wb"

definition TEMPLATE_SHEET_NAME :: string where
  "TEMPLATE_SHEET_NAME = ''Template''"

definition TOTAL_SHEET_NAME :: string where
  "TOTAL_SHEET_NAME = ''Total''"

fun sheet_index :: "workbook \<Rightarrow> string \<Rightarrow> nat option" where
  "sheet_index [] name = None"
| "sheet_index (ws # wb) name =
     (if title ws = name then Some 0 else map_option Suc (sheet_index wb name))"

text \<open>A title must not contain one of the characters \<^verbatim>\<open>\ * ? : / [ ]\<close>.\<close>

definition invalid_title :: "string \<Rightarrow> bool" where
  "invalid_title t = list_ex (\<lambda>c. c \<in> set [CHR 0x5C, CHR ''*'', CHR ''?'', CHR '':'', CHR ''/'',
                                              CHR ''['', CHR '']'']) t"

text \<open>\<^verbatim>\<open>sheet.title = value\<close> for the sheet at position \<open>i\<close>: the empty title and an
  invalid character raise \<^verbatim>\<open>ValueError\<close>; a title that differs from the present one
  goes through the renaming helper. No branch raises for a name that is already taken.\<close>

definition set_title :: "(string list \<Rightarrow> string \<Rightarrow> string) \<Rightarrow> workbook \<Rightarrow> nat \<Rightarrow> string \<Rightarrow> error + workbook" where
  "set_title adn wb i v =
     (if v = [] then Inl ValueError
      else if invalid_title v then Inl ValueError
      else Inr (wb[i := (wb ! i)\<lparr>title := (if title (wb ! i) \<noteq> v then adn (sheetnames wb) v else v)\<rparr>]))"

definition new_worksheet :: "string \<Rightarrow> worksheet" where
  "new_worksheet t = \<lparr>title = t, cells = [], merged_ranges = [], freeze_panes = None,
                       sheet_state = ''visible''\<rparr>"

text \<open>\<^verbatim>\<open>wb.create_sheet(title)\<close> appends an empty sheet; with the empty title it is the
  default title \<^verbatim>\<open>"Sheet"\<close> that is given to the new sheet.\<close>

definition create_sheet :: "(string list \<Rightarrow> string \<Rightarrow> string) \<Rightarrow> workbook \<Rightarrow> string \<Rightarrow> error + workbook" where
  "create_sheet adn wb t =
     (let v = (if t = [] then ''Sheet'' else t) in
      if invalid_title v then Inl ValueError else Inr (wb @ [new_worksheet (adn (sheetnames wb) v)]))"

text \<open>
  \<^verbatim>\<open>wb.copy_worksheet(source)\<close> appends a sheet titled after the source with
  \<^verbatim>\<open>" Copy"\<close>. For every cell object of the source it takes the cell of the target at the
  same address with \<^verbatim>\<open>target.cell(...)\<close>, an ordinary cell, and gives it the source's
  value and style; the list of merged ranges is copied as it is.
\<close>

definition copy_cells :: "((int \<times> int) \<times> cell) list \<Rightarrow> ((int \<times> int) \<times> cell) list" where
  "copy_cells cs = map (\<lambda>p. (fst p, Cell (value_of (snd p)) (style_of (snd p)))) cs"

definition copy_worksheet :: "(string list \<Rightarrow> string \<Rightarrow> string) \<Rightarrow> workbook \<Rightarrow> nat \<Rightarrow> workbook" where
  "copy_worksheet adn wb i =
     wb @ [\<lparr>title = adn (sheetnames wb) (title (wb ! i) @ '' Copy''),
            cells = copy_cells (cells (wb ! i)),
            merged_ranges = merged_ranges (wb ! i),
            freeze_panes = None,
            sheet_state = ''visible''\<rparr>]"

text \<open>The two statements that make a daily sheet from the template:
  \<^verbatim>\<open>new_sheet = wb.copy_worksheet(wb[TEMPLATE_SHEET_NAME])\<close> and
  \<^verbatim>\<open>new_sheet.title = sheet_name\<close>. The new sheet is the last one of the result.\<close>

definition clone_template :: "(string list \<Rightarrow> string \<Rightarrow> string) \<Rightarrow> workbook \<Rightarrow> string \<Rightarrow> error + workbook" where
  "clone_template adn wb sheet_name =
     (case sheet_index wb TEMPLATE_SHEET_NAME of
        None \<Rightarrow> Inl KeyError
      | Some ti \<Rightarrow> set_title adn (copy_worksheet adn wb ti) (length wb) sheet_name)"

text \<open>\<^verbatim>\<open>create_or_update_total_sheet(wb, daily_info, rate)\<close>, the same in both files.\<close>

definition total_sheet_of :: "(string list \<Rightarrow> string \<Rightarrow> string) \<Rightarrow> workbook \<Rightarrow> error + workbook \<times> nat" where
  "total_sheet_of adn wb =
     (case sheet_index wb TOTAL_SHEET_NAME of
        Some i \<Rightarrow> Inr (wb, i)
      | None \<Rightarrow> ebind (create_sheet adn wb TOTAL_SHEET_NAME) (\<lambda>wb1. Inr (wb1, length wb)))"

definition fill_total_sheet :: "worksheet \<Rightarrow> daily_info \<Rightarrow> pyval \<Rightarrow> error + worksheet" where
  "fill_total_sheet total_sheet daily_info rate =
     ebind (safe_set_cell total_sheet (3, 2) (PStr ''Date'')) (\<lambda>ws1.
     ebind (safe_set_cell ws1 (3, 3) (PStr ''Hour'')) (\<lambda>ws2.
     ebind (safe_set_cell ws2 (3, 4) (PStr ''Rate'')) (\<lambda>ws3.
     ebind (safe_set_cell ws3 (3, 5) (PStr ''Total Cost'')) (\<lambda>ws4.
     ebind (update_total_sheet ws4 daily_info rate) (\<lambda>ws5.
       freeze_at_cell ws5 (4, 1))))))"

definition create_or_update_total_sheet ::
  "(string list \<Rightarrow> string \<Rightarrow> string) \<Rightarrow> workbook \<Rightarrow> daily_info \<Rightarrow> pyval \<Rightarrow> error + workbook" where
  "create_or_update_total_sheet adn wb daily_info rate =
     ebind (total_sheet_of adn wb) (\<lambda>(wb1, i).
     ebind (fill_total_sheet (wb1 ! i) daily_info rate) (\<lambda>total_sheet.
       Inr (wb1[i := total_sheet])))"

text \<open>\<^verbatim>\<open>wb[TEMPLATE_SHEET_NAME].sheet_state = "hidden"\<close>.\<close>

definition hide_template :: "workbook \<Rightarrow> error + workbook" where
  "hide_template wb =
     (case sheet_index wb TEMPLATE_SHEET_NAME of
        None \<Rightarrow> Inl KeyError
      | Some ti \<Rightarrow> Inr (wb[ti := (wb ! ti)\<lparr>sheet_state := ''hidden''\<rparr>]))"

section \<open>The main workflow when no date is given\<close>

text \<open>
  \<^verbatim>\<open>main()\<close> along the branch \<^verbatim>\<open>start_date is None and end_date is None\<close>, from the
  loaded template workbook \<open>wb\<close> to the workbook that is saved; the prompts, the reading
  of the data files (which give \<open>combined_df\<close>) and the saving are outside the model.
  \<open>today\<close> is \<^verbatim>\<open>datetime.date.today()\<close>. With no data file, \<open>combined_df\<close> is the empty
  frame \<^verbatim>\<open>pd.DataFrame()\<close>.
\<close>

definition empty_frame :: dataframe where
  "empty_frame = \<lparr>df_columns = [], df_rows = []\<rparr>"

definition daily_formula :: "int \<Rightarrow> string" where
  "daily_formula last_row =
     ''=SUM(C7:C'' @ str_int last_row @ '') + (SUM(D7:D'' @ str_int last_row @ '')/60)''"

text \<open>The body of the loop over the days in \<^verbatim>\<open>work_log.py\<close>.\<close>

definition make_daily_sheet_wl ::
  "(string list \<Rightarrow> string \<Rightarrow> string) \<Rightarrow> date \<Rightarrow> string \<Rightarrow> dataframe \<Rightarrow> date \<Rightarrow>
   workbook \<times> daily_info \<Rightarrow> error + workbook \<times> daily_info" where
  "make_daily_sheet_wl adn today date_label combined_df d st =
     (let wb = fst st; daily_info = snd st; sheet_name = strftime_mdY d in
      ebind (clone_template adn wb sheet_name) (\<lambda>wb1.
      ebind (apply_consistent_layout today (wb1 ! length wb) date_label) (\<lambda>s1.
      ebind (clear_sheet_data_wl s1 7) (\<lambda>s2.
      ebind (fill_daily_sheet_wl s2 d combined_df 7) (\<lambda>(s3, last_row).
      ebind (cell_assign s3 (4, 3)
               (if last_row \<ge> 7 then PStr (daily_formula last_row) else PInt 0)) (\<lambda>s4.
        Inr (wb1[length wb := s4], AList.update sheet_name (7, last_row) daily_info)))))))"

definition main_no_dates_wl ::
  "(string list \<Rightarrow> string \<Rightarrow> string) \<Rightarrow> date \<Rightarrow> dataframe \<Rightarrow> pyval \<Rightarrow> workbook \<Rightarrow> error + workbook" where
  "main_no_dates_wl adn today combined_df rate wb =
     (if TEMPLATE_SHEET_NAME \<notin> set (sheetnames wb) then Inl SystemExit
      else
        ebind (efold (make_daily_sheet_wl adn today (strftime_mdY today) combined_df) [today] (wb, []))
          (\<lambda>(wb1, daily_info).
        ebind (create_or_update_total_sheet adn wb1 daily_info rate) (\<lambda>wb2.
          hide_template wb2)))"

definition main_no_dates_ae ::
  "(string list \<Rightarrow> string \<Rightarrow> string) \<Rightarrow> date \<Rightarrow> dataframe \<Rightarrow> pyval \<Rightarrow> workbook \<Rightarrow> error + workbook" where
  "main_no_dates_ae adn today combined_df rate wb =
     (if TEMPLATE_SHEET_NAME \<notin> set (sheetnames wb) then Inl SystemExit
      else
        let sheet_name = strftime_mdY today in
        ebind (clone_template adn wb sheet_name) (\<lambda>wb1.
        ebind (clear_sheet_data_ae (wb1 ! length wb) 7) (\<lambda>s1.
        ebind (fill_daily_sheet_ae today s1 today combined_df True 7 (Some today)) (\<lambda>(s2, last_row).
        ebind (create_or_update_total_sheet adn (wb1[length wb := s2])
                 (AList.update sheet_name (7, last_row) []) rate) (\<lambda>wb2.
          hide_template wb2)))))"

section \<open>Predicates of the statements\<close>

text \<open>A sheet without merged cell objects, as \<^verbatim>\<open>copy_worksheet\<close> makes them.\<close>

definition plain_sheet :: "worksheet \<Rightarrow> bool" where
  "plain_sheet ws = (\<forall>k. \<not> merged_at ws k)"

text \<open>A value that the library accepts for an ordinary cell, and the value that the
  cell then holds: a string is kept up to its 32767th character.\<close>

definition storable :: "pyval \<Rightarrow> bool" where
  "storable v = (case bind_value v of Inl e \<Rightarrow> False | Inr v' \<Rightarrow> True)"

definition stored_value :: "pyval \<Rightarrow> pyval" where
  "stored_value v = (case v of PStr s \<Rightarrow> PStr (take_chars 32767 s) | _ \<Rightarrow> v)"

text \<open>A record whose seven written fields hold values that the library accepts.\<close>

definition storable_record :: "pyrecord \<Rightarrow> bool" where
  "storable_record r = list_all (\<lambda>key. storable (rec_get r key)) HEADERS"

text \<open>The characters of a printed date.\<close>

definition date_char :: "char \<Rightarrow> bool" where
  "date_char c = (c \<in> set ''-0123456789'')"


text \<open>
  Two sheets have the same frame when they agree on everything but their cells: the
  merged ranges, the title, the frozen pane and the visibility.
\<close>

definition same_frame :: "worksheet \<Rightarrow> worksheet \<Rightarrow> bool" where
  "same_frame w ws = (merged_ranges w = merged_ranges ws \<and> title w = title ws \<and>
     freeze_panes w = freeze_panes ws \<and> sheet_state w = sheet_state ws)"

text \<open>
  The addresses that the loop of \<open>for_each_cell\<close> runs through from a first row on, and
  the relation between a sheet and a later state of it in which some ordinary cells among
  the addresses \<open>T\<close> have been emptied, their styles kept, and nothing else has changed.
\<close>

definition visited :: "worksheet \<Rightarrow> int \<Rightarrow> (int \<times> int) set" where
  "visited ws min_r = {k. min_r \<le> fst k \<and> fst k \<le> max_row_ws ws \<and> 1 \<le> snd k \<and> snd k \<le> max_column_ws ws}"

definition cleared_by :: "worksheet \<Rightarrow> (int \<times> int) set \<Rightarrow> worksheet \<Rightarrow> bool" where
  "cleared_by ws T w = (same_frame w ws \<and>
     (\<forall>k. cell_at w k = cell_at ws k \<or>
          (k \<in> T \<and> \<not> merged_at ws k \<and> cell_at w k = Cell PNone (style_at ws k))))"

text \<open>
  The cells of a sheet lie at addresses at which the library makes cells: a row from 1
  to 1048576 and a column from 1 on.
\<close>

definition valid_keys :: "worksheet \<Rightarrow> bool" where
  "valid_keys ws =
     (\<forall>p \<in> set (cells ws). 1 \<le> fst (fst p) \<and> fst (fst p) \<le> MAX_ROW \<and> 1 \<le> snd (fst p))"

section \<open>Example data\<close>

text \<open>A small plain sheet whose cell \<^verbatim>\<open>E7\<close>, in the style row, has a font of its own; a
  frame with three dated records; and a renaming helper that appends a digit to a name
  that is taken. They are the inputs of the evaluations below.\<close>

definition demo_sheet :: worksheet where
  "demo_sheet = \<lparr>title = ''01-02-2024'',
     cells = [((6, 1), Cell (PStr ''Number'') default_style),
              ((7, 5), Cell PNone (default_style\<lparr>font := Font (Some ''Arial'') (Some 10) True None\<rparr>))],
     merged_ranges = [], freeze_panes = None, sheet_state = ''visible''\<rparr>"

definition demo_frame :: dataframe where
  "demo_frame = \<lparr>df_columns = [''Number'', ''Hr'', ''Min'', ''Complete'', ''Date''],
     df_rows = [[(''Number'', PInt 1), (''Hr'', PInt 2), (''Min'', PInt 30), (''Complete'', PStr ''Yes''),
                 (''Date'', PDate (Date 2024 1 2))],
                [(''Number'', PInt 2), (''Hr'', PInt 1), (''Min'', PInt 0), (''Complete'', PStr ''maybe''),
                 (''Date'', PDate (Date 2024 1 2))],
                [(''Number'', PInt 3), (''Hr'', PInt 4), (''Min'', PInt 15), (''Complete'', PStr ''NO''),
                 (''Date'', PDate (Date 2024 1 3))]]\<rparr>"

definition demo_adn :: "string list \<Rightarrow> string \<Rightarrow> string" where
  "demo_adn names v = (if v \<in> set names then v @ ''1'' else v)"

text \<open>Two template sheets as the library loads them from a file, with a merged cell
  object at every address of a merged range but its top-left one: the first has the
  range \<^verbatim>\<open>A1:B1\<close>, the second the range \<^verbatim>\<open>A6:A7\<close>.\<close>

definition merged_sheet :: worksheet where
  "merged_sheet = \<lparr>title = ''Template'',
     cells = [((1, 1), Cell (PStr ''DATE'') default_style),
              ((1, 2), MergedCell default_style),
              ((3, 2), Cell (PStr ''b'') default_style)],
     merged_ranges = [CellRange 1 1 1 2],
     freeze_panes = None, sheet_state = ''visible''\<rparr>"

definition merged_template :: worksheet where
  "merged_template = \<lparr>title = ''Template'',
     cells = [((6, 1), Cell (PStr ''Number'') default_style),
              ((7, 1), MergedCell default_style),
              ((7, 2), Cell (PStr ''sample'') default_style)],
     merged_ranges = [CellRange 6 1 7 1], freeze_panes = None, sheet_state = ''visible''\<rparr>"

section \<open>Basic facts about the cell operations\<close>

lemma ebind_Inr [simp]: "ebind (Inr x) f = f x"
  by (simp add: ebind_def)

lemma ebind_Inl [simp]: "ebind (Inl e) f = Inl e"
  by (simp add: ebind_def)

lemma ebind_eq_Inr: "ebind m f = Inr y \<longleftrightarrow> (\<exists>x. m = Inr x \<and> f x = Inr y)"
  by (cases m) auto

lemma cell_at_ws_cell: "ws_cell ws k = Inr ws1 \<Longrightarrow> cell_at ws1 = cell_at ws"
  by (auto simp: ws_cell_def cell_at_def fun_eq_iff split: if_splits option.splits)

lemma ws_cell_fields:
  "ws_cell ws k = Inr ws1 \<Longrightarrow>
     merged_ranges ws1 = merged_ranges ws \<and> title ws1 = title ws \<and>
     freeze_panes ws1 = freeze_panes ws \<and> sheet_state ws1 = sheet_state ws"
  by (auto simp: ws_cell_def split: if_splits option.splits)

lemma ws_cell_ok:
  "1 \<le> fst k \<Longrightarrow> fst k \<le> MAX_ROW \<Longrightarrow> 1 \<le> snd k \<Longrightarrow> \<exists>ws1. ws_cell ws k = Inr ws1"
  by (auto simp: ws_cell_def split: option.splits)

lemma ws_cell_Inr_iff:
  "(\<exists>ws1. ws_cell ws k = Inr ws1) \<longleftrightarrow> 1 \<le> fst k \<and> fst k \<le> MAX_ROW \<and> 1 \<le> snd k"
  by (auto simp: ws_cell_def split: option.splits)

lemma bind_value_storable: "bind_value v = Inr v' \<longleftrightarrow> storable v \<and> v' = stored_value v"
  by (cases v)
     (auto simp: bind_value_def storable_def stored_value_def check_string_def Let_def
       split: sum.splits if_splits)

lemma storable_simps [simp]:
  "storable PNone" "storable (PInt i)" "storable (PFloat x)" "storable PNaN" "storable (PDate d)"
  by (simp_all add: storable_def bind_value_def)

lemma stored_value_simps [simp]:
  "stored_value PNone = PNone" "stored_value (PInt i) = PInt i"
  "stored_value (PFloat x) = PFloat x" "stored_value PNaN = PNaN"
  "stored_value (PDate d) = PDate d"
  by (simp_all add: stored_value_def)

lemma bound_style_simps [simp]:
  "bound_style PNone s = s" "bound_style (PStr t) s = s" "bound_style (PInt i) s = s"
  "bound_style (PFloat x) s = s" "bound_style PNaN s = s"
  by (simp_all add: bound_style_def)

lemma set_take_chars: "set (take_chars n s) \<subseteq> set s"
  by (induction n s rule: take_chars.induct) auto

lemma storable_PStr: "\<forall>c \<in> set s. \<not> illegal_char c \<Longrightarrow> storable (PStr s)"
  using set_take_chars[of 32767 s]
  by (auto simp: storable_def bind_value_def check_string_def Let_def list_ex_iff)

lemma set_value_Inr:
  "set_value ws k v = Inr ws' \<Longrightarrow>
   cell_at ws' = (cell_at ws)(k := Cell (stored_value v) (bound_style v (style_at ws k)))"
  by (auto simp: set_value_def cell_at_def style_at_def fun_eq_iff update_conv' bind_value_storable
      split: cell.splits option.splits sum.splits)

lemma set_value_fields:
  "set_value ws k v = Inr ws' \<Longrightarrow>
     merged_ranges ws' = merged_ranges ws \<and> title ws' = title ws \<and>
     freeze_panes ws' = freeze_panes ws \<and> sheet_state ws' = sheet_state ws"
  by (auto simp: set_value_def split: cell.splits sum.splits)

lemma set_value_Inr_iff:
  "(\<exists>ws'. set_value ws k v = Inr ws') \<longleftrightarrow> \<not> merged_at ws k \<and> storable v"
  by (auto simp: set_value_def merged_at_def storable_def split: cell.splits sum.splits)

lemma set_value_merged: "merged_at ws k \<Longrightarrow> set_value ws k v = Inl AttributeError"
  by (auto simp: set_value_def merged_at_def split: cell.splits)

lemma cell_at_set_style:
  "cell_at (set_style ws k s) = (cell_at ws)(k := with_style (cell_at ws k) s)"
  by (auto simp: set_style_def cell_at_def fun_eq_iff update_conv')

lemma is_MergedCell_with_style [simp]: "is_MergedCell (with_style c s) = is_MergedCell c"
  by (cases c) auto

lemma value_of_with_style [simp]: "value_of (with_style c s) = value_of c"
  by (cases c) auto

lemma style_of_with_style [simp]: "style_of (with_style c s) = s"
  by (cases c) auto

lemma merged_at_ws_cell: "ws_cell ws k = Inr ws1 \<Longrightarrow> merged_at ws1 = merged_at ws"
  by (simp add: merged_at_def fun_eq_iff cell_at_ws_cell)

lemma merged_at_set_value:
  assumes "set_value ws k v = Inr ws'"
  shows "merged_at ws' = merged_at ws"
proof -
  have "\<not> merged_at ws k" using assms set_value_Inr_iff by blast
  then show ?thesis
    using set_value_Inr[OF assms] by (auto simp: merged_at_def fun_eq_iff)
qed

lemma merged_at_set_style: "merged_at (set_style ws k s) = merged_at ws"
  by (simp add: merged_at_def fun_eq_iff cell_at_set_style)

lemma merged_at_set_font: "merged_at (set_font ws k f) = merged_at ws"
  by (simp add: set_font_def merged_at_set_style)

lemma merged_at_copy_cell_style: "merged_at (copy_cell_style ws a b) = merged_at ws"
  by (simp add: copy_cell_style_def merged_at_set_style)

lemma cell_assign_Inr_iff:
  "(\<exists>ws'. cell_assign ws k v = Inr ws') \<longleftrightarrow>
   1 \<le> fst k \<and> fst k \<le> MAX_ROW \<and> 1 \<le> snd k \<and> \<not> merged_at ws k \<and> storable v"
proof
  assume "\<exists>ws'. cell_assign ws k v = Inr ws'"
  then obtain ws1 ws' where a: "ws_cell ws k = Inr ws1" and b: "set_value ws1 k v = Inr ws'"
    by (auto simp: cell_assign_def ebind_eq_Inr)
  from a have "1 \<le> fst k \<and> fst k \<le> MAX_ROW \<and> 1 \<le> snd k" using ws_cell_Inr_iff by blast
  moreover from b have "\<not> merged_at ws1 k \<and> storable v" using set_value_Inr_iff by blast
  ultimately show "1 \<le> fst k \<and> fst k \<le> MAX_ROW \<and> 1 \<le> snd k \<and> \<not> merged_at ws k \<and> storable v"
    using merged_at_ws_cell[OF a] by simp
next
  assume h: "1 \<le> fst k \<and> fst k \<le> MAX_ROW \<and> 1 \<le> snd k \<and> \<not> merged_at ws k \<and> storable v"
  then obtain ws1 where a: "ws_cell ws k = Inr ws1" using ws_cell_ok by blast
  with h have "\<not> merged_at ws1 k \<and> storable v" by (simp add: merged_at_ws_cell)
  then obtain ws' where "set_value ws1 k v = Inr ws'" using set_value_Inr_iff by blast
  with a show "\<exists>ws'. cell_assign ws k v = Inr ws'" by (simp add: cell_assign_def)
qed

lemma merged_at_cell_assign: "cell_assign ws k v = Inr ws' \<Longrightarrow> merged_at ws' = merged_at ws"
  by (auto simp: cell_assign_def ebind_eq_Inr merged_at_ws_cell merged_at_set_value)

lemma cell_at_cell_assign:
  "cell_assign ws k v = Inr ws' \<Longrightarrow>
   cell_at ws' = (cell_at ws)(k := Cell (stored_value v) (bound_style v (style_at ws k)))"
  by (auto simp: cell_assign_def ebind_eq_Inr style_at_def dest!: cell_at_ws_cell set_value_Inr)

lemma efold_ok:
  "(\<And>x s. x \<in> set xs \<Longrightarrow> P s \<Longrightarrow> \<exists>s'. f x s = Inr s' \<and> P s') \<Longrightarrow> P s \<Longrightarrow>
   \<exists>s'. efold f xs s = Inr s' \<and> P s'"
proof (induction xs arbitrary: s)
  case Nil
  then show ?case by simp
next
  case (Cons x xs)
  from Cons.prems obtain s1 where s1: "f x s = Inr s1" "P s1" by (meson list.set_intros(1))
  have "\<exists>s'. efold f xs s1 = Inr s' \<and> P s'"
    by (rule Cons.IH) (use Cons.prems s1 in auto)
  with s1 show ?case by simp
qed

lemma efold_inv:
  "(\<And>x s s'. x \<in> set xs \<Longrightarrow> f x s = Inr s' \<Longrightarrow> P s \<Longrightarrow> P s') \<Longrightarrow>
   efold f xs s = Inr s' \<Longrightarrow> P s \<Longrightarrow> P s'"
proof (induction xs arbitrary: s)
  case Nil
  then show ?case by simp
next
  case (Cons x xs)
  from Cons.prems(2) obtain s1 where s1: "f x s = Inr s1" "efold f xs s1 = Inr s'"
    by (auto split: sum.splits)
  have "P s1" using Cons.prems(1)[OF _ s1(1) Cons.prems(3)] by simp
  show ?case
    by (rule Cons.IH[OF _ s1(2) \<open>P s1\<close>]) (use Cons.prems(1) in auto)
qed

lemma enumerate_from_fst: "p \<in> set (enumerate_from n xs) \<Longrightarrow> n \<le> fst p"
  by (induction n xs rule: enumerate_from.induct) auto

lemma enumerate_from_snd: "p \<in> set (enumerate_from n xs) \<Longrightarrow> snd p \<in> set xs"
  by (induction n xs rule: enumerate_from.induct) auto

lemma digit_char_legal: "d < 10 \<Longrightarrow> date_char (digit_char d)"
proof -
  assume "d < 10"
  then have "d \<in> {0, 1, 2, 3, 4, 5, 6, 7, 8, 9}" by auto
  then show ?thesis by (auto simp: date_char_def digit_char_def)
qed

lemma str_nat_chars: "list_all date_char (str_nat n)"
proof (induction n rule: str_nat.induct)
  case (1 n)
  show ?case
  proof (cases "n < 10")
    case True
    then show ?thesis using digit_char_legal[of n] by (subst str_nat.simps) simp
  next
    case False
    have "n mod 10 < 10" by simp
    then have "date_char (digit_char (n mod 10))" by (rule digit_char_legal)
    with False 1 show ?thesis by (subst str_nat.simps) simp
  qed
qed

lemma str_int_chars: "list_all date_char (str_int i)"
proof -
  have "date_char CHR ''-''" by (simp add: date_char_def)
  then show ?thesis using str_nat_chars by (simp add: str_int_def)
qed

lemma zero_pad_chars: "list_all date_char s \<Longrightarrow> list_all date_char (zero_pad w s)"
proof -
  assume a: "list_all date_char s"
  have "date_char CHR ''0''" by (simp add: date_char_def)
  then have "list_all date_char (replicate (w - length s) CHR ''0'')"
    by (simp add: list_all_iff)
  with a show ?thesis by (simp add: zero_pad_def)
qed

lemma strftime_chars: "list_all date_char (strftime_mdY d)"
proof -
  have "list_all date_char ''-''" by (simp add: date_char_def)
  then show ?thesis
    unfolding strftime_mdY_def
    by (simp only: list_all_append zero_pad_chars str_int_chars simp_thms)
qed

lemma date_chars_legal: "date_char c \<Longrightarrow> \<not> illegal_char c"
  by (auto simp: illegal_char_def date_char_def)

lemma strftime_storable: "storable (PStr (strftime_mdY d))"
  by (rule storable_PStr) (use strftime_chars date_chars_legal in \<open>auto simp: list_all_iff\<close>)

lemma headers_storable: "h \<in> set HEADERS \<Longrightarrow> storable (PStr h)"
  by (rule storable_PStr) (auto simp: HEADERS_def illegal_char_def)

lemma plain_sheetD: "plain_sheet ws \<Longrightarrow> \<not> merged_at ws k"
  unfolding plain_sheet_def by blast

lemma plain_sheet_cong: "merged_at ws' = merged_at ws \<Longrightarrow> plain_sheet ws' = plain_sheet ws"
  by (simp add: plain_sheet_def)

lemma write_records_wl_current:
  "write_records_wl ws c rs = Inr (ws', c') \<Longrightarrow> c' = c + int (length rs)"
proof (induction rs arbitrary: ws c)
  case Nil
  then show ?case by simp
next
  case (Cons r rs)
  from Cons.prems obtain ws1 where "write_records_wl ws1 (c + 1) rs = Inr (ws', c')"
    by (auto split: sum.splits)
  from Cons.IH[OF this] show ?case by simp
qed

lemma write_records_ae_current:
  "write_records_ae ws c rs = Inr (ws', c') \<Longrightarrow> c' = c + int (length rs)"
proof (induction rs arbitrary: ws c)
  case Nil
  then show ?case by simp
next
  case (Cons r rs)
  from Cons.prems obtain ws1 where "write_records_ae ws1 (c + 1) rs = Inr (ws', c')"
    by (auto split: sum.splits)
  from Cons.IH[OF this] show ?case by simp
qed

lemma write_field_wl_ok:
  assumes "1 \<le> current" "current \<le> MAX_ROW" "1 \<le> fst ck" "plain_sheet sheet"
    "storable (rec_get r (snd ck))"
  shows "\<exists>ws'. write_field_wl current r ck sheet = Inr ws' \<and> plain_sheet ws'"
proof -
  obtain ws1 where a: "ws_cell sheet (current, fst ck) = Inr ws1"
    using ws_cell_ok[of "(current, fst ck)"] assms by auto
  have p1: "merged_at ws1 = merged_at sheet" using a by (rule merged_at_ws_cell)
  then have "\<not> merged_at ws1 (current, fst ck)" using plain_sheetD[OF assms(4)] by simp
  then obtain ws2 where b: "set_value ws1 (current, fst ck) (rec_get r (snd ck)) = Inr ws2"
    using set_value_Inr_iff assms(5) by blast
  have p2: "merged_at ws2 = merged_at ws1" using b by (rule merged_at_set_value)
  obtain ws3 where c: "ws_cell ws2 (TEMPLATE_STYLE_ROW, fst ck) = Inr ws3"
    using ws_cell_ok[of "(TEMPLATE_STYLE_ROW, fst ck)"] assms
    by (auto simp: TEMPLATE_STYLE_ROW_def MAX_ROW_def)
  have p3: "merged_at ws3 = merged_at ws2" using c by (rule merged_at_ws_cell)
  have "plain_sheet ws3" using p1 p2 p3 assms(4) by (simp add: plain_sheet_def)
  then show ?thesis
    using a b c
    by (auto simp: write_field_wl_def Let_def plain_sheet_def merged_at_copy_cell_style
        merged_at_set_font split: option.splits)
qed

lemma write_record_wl_ok:
  assumes "1 \<le> current" "current \<le> MAX_ROW" "plain_sheet sheet"
    "list_all (\<lambda>key. storable (rec_get r key)) HEADERS"
  shows "\<exists>ws'. write_record_wl current r sheet = Inr ws' \<and> plain_sheet ws'"
  unfolding write_record_wl_def
proof (rule efold_ok)
  fix x s assume x: "x \<in> set (enumerate_from 1 HEADERS)" and s: "plain_sheet s"
  have "1 \<le> fst x" using x by (rule enumerate_from_fst)
  moreover have "storable (rec_get r (snd x))"
    using enumerate_from_snd[OF x] assms(4) by (simp add: list_all_iff)
  ultimately show "\<exists>s'. write_field_wl current r x s = Inr s' \<and> plain_sheet s'"
    using write_field_wl_ok[OF assms(1) assms(2) _ s] by blast
qed (rule assms(3))

lemma write_records_wl_ok:
  "1 \<le> c \<Longrightarrow> c + int (length rs) - 1 \<le> MAX_ROW \<Longrightarrow> plain_sheet ws \<Longrightarrow>
   list_all (\<lambda>r. list_all (\<lambda>key. storable (rec_get r key)) HEADERS) rs \<Longrightarrow>
   \<exists>ws'. write_records_wl ws c rs = Inr (ws', c + int (length rs)) \<and> plain_sheet ws'"
proof (induction rs arbitrary: ws c)
  case Nil
  then show ?case by simp
next
  case (Cons r rs)
  have "c \<le> MAX_ROW" using Cons.prems(2) by simp
  then obtain ws1 where a: "write_record_wl c r ws = Inr ws1" "plain_sheet ws1"
    using write_record_wl_ok[of c ws r] Cons.prems by auto
  have "\<exists>ws'. write_records_wl ws1 (c + 1) rs = Inr (ws', c + 1 + int (length rs)) \<and> plain_sheet ws'"
    by (rule Cons.IH) (use Cons.prems a in auto)
  with a show ?case by (auto simp: algebra_simps)
qed

lemma cell_assign_plain:
  assumes "1 \<le> fst k" "fst k \<le> MAX_ROW" "1 \<le> snd k" "plain_sheet ws" "storable v"
  shows "\<exists>ws'. cell_assign ws k v = Inr ws' \<and> plain_sheet ws'"
proof -
  have "\<not> merged_at ws k" using assms(4) by (rule plain_sheetD)
  then obtain ws' where a: "cell_assign ws k v = Inr ws'"
    using cell_assign_Inr_iff assms by blast
  then show ?thesis using merged_at_cell_assign[OF a] assms(4) by (simp add: plain_sheet_def)
qed

lemma write_record_ae_ok:
  assumes "1 \<le> current" "current \<le> MAX_ROW" "plain_sheet sheet"
    "list_all (\<lambda>key. storable (rec_get r key)) HEADERS"
  shows "\<exists>ws'. write_record_ae current r sheet = Inr ws' \<and> plain_sheet ws'"
proof -
  have st: "storable (rec_get r ''Number'')" "storable (rec_get r ''Daily Work Description'')"
    "storable (rec_get r ''Hr'')" "storable (rec_get r ''Min'')" "storable (rec_get r ''Complete'')"
    "storable (rec_get r ''Follow up'')" "storable (rec_get r ''Supervisor Comments'')"
    using assms(4) by (simp_all add: HEADERS_def)
  obtain ws1 where a1: "cell_assign sheet (current, 1) (rec_get r ''Number'') = Inr ws1" "plain_sheet ws1"
    using cell_assign_plain[of "(current, 1)" sheet] assms st by auto
  obtain ws2 where a2: "cell_assign ws1 (current, 2) (rec_get r ''Daily Work Description'') = Inr ws2" "plain_sheet ws2"
    using cell_assign_plain[of "(current, 2)" ws1] assms a1 st by auto
  obtain ws3 where a3: "cell_assign ws2 (current, 3) (rec_get r ''Hr'') = Inr ws3" "plain_sheet ws3"
    using cell_assign_plain[of "(current, 3)" ws2] assms a2 st by auto
  obtain ws4 where a4: "cell_assign ws3 (current, 4) (rec_get r ''Min'') = Inr ws4" "plain_sheet ws4"
    using cell_assign_plain[of "(current, 4)" ws3] assms a3 st by auto
  obtain ws5 where a5: "cell_assign ws4 (current, 5) (rec_get r ''Complete'') = Inr ws5" "plain_sheet ws5"
    using cell_assign_plain[of "(current, 5)" ws4] assms a4 st by auto
  define ws6 where "ws6 = (case complete_font_ae (rec_get r ''Complete'') of
                    Some f \<Rightarrow> set_font ws5 (current, 5) f | None \<Rightarrow> ws5)"
  have p6: "plain_sheet ws6"
    using a5(2) by (auto simp: ws6_def plain_sheet_def merged_at_set_font split: option.splits)
  obtain ws7 where a7: "cell_assign ws6 (current, 6) (rec_get r ''Follow up'') = Inr ws7" "plain_sheet ws7"
    using cell_assign_plain[of "(current, 6)" ws6] assms p6 st by auto
  obtain ws8 where a8: "cell_assign ws7 (current, 7) (rec_get r ''Supervisor Comments'') = Inr ws8" "plain_sheet ws8"
    using cell_assign_plain[of "(current, 7)" ws7] assms a7 st by auto
  show ?thesis
    using a1 a2 a3 a4 a5 a7 a8 by (simp add: write_record_ae_def Let_def ws6_def)
qed

lemma write_records_ae_ok:
  "1 \<le> c \<Longrightarrow> c + int (length rs) - 1 \<le> MAX_ROW \<Longrightarrow> plain_sheet ws \<Longrightarrow>
   list_all (\<lambda>r. list_all (\<lambda>key. storable (rec_get r key)) HEADERS) rs \<Longrightarrow>
   \<exists>ws'. write_records_ae ws c rs = Inr (ws', c + int (length rs)) \<and> plain_sheet ws'"
proof (induction rs arbitrary: ws c)
  case Nil
  then show ?case by simp
next
  case (Cons r rs)
  have "c \<le> MAX_ROW" using Cons.prems(2) by simp
  then obtain ws1 where a: "write_record_ae c r ws = Inr ws1" "plain_sheet ws1"
    using write_record_ae_ok[of c ws r] Cons.prems by auto
  have "\<exists>ws'. write_records_ae ws1 (c + 1) rs = Inr (ws', c + 1 + int (length rs)) \<and> plain_sheet ws'"
    by (rule Cons.IH) (use Cons.prems a in auto)
  with a show ?case by (auto simp: algebra_simps)
qed

lemma stamp_dates_ae_ok:
  assumes "plain_sheet sheet"
  shows "\<exists>ws'. stamp_dates_ae today sheet d rs fb = Inr ws' \<and> plain_sheet ws'"
proof (cases "rs = []")
  case True
  obtain ws1 where a1: "cell_assign sheet (1, 2) (PStr (strftime_mdY today)) = Inr ws1" "plain_sheet ws1"
    using cell_assign_plain[of "(1, 2)" sheet] assms strftime_storable by (auto simp: MAX_ROW_def)
  show ?thesis
  proof (cases fb)
    case None
    with True a1 show ?thesis by (simp add: stamp_dates_ae_def)
  next
    case (Some fd)
    obtain ws2 where "cell_assign ws1 (3, 2) (PStr (strftime_mdY fd)) = Inr ws2" "plain_sheet ws2"
      using cell_assign_plain[of "(3, 2)" ws1] a1 strftime_storable by (auto simp: MAX_ROW_def)
    with True a1 Some show ?thesis by (simp add: stamp_dates_ae_def)
  qed
next
  case False
  then show ?thesis
    using cell_assign_plain[of "(1, 2)" sheet] assms strftime_storable
    by (simp add: stamp_dates_ae_def MAX_ROW_def)
qed

lemma freeze_at_cell_ok:
  assumes "1 \<le> fst k" "fst k \<le> MAX_ROW" "1 \<le> snd k" "plain_sheet ws"
  shows "\<exists>ws'. freeze_at_cell ws k = Inr ws' \<and> plain_sheet ws'"
proof -
  obtain ws1 where a: "ws_cell ws k = Inr ws1" using ws_cell_ok assms by blast
  have c: "cell_at ws1 = cell_at ws" using a by (rule cell_at_ws_cell)
  then have m: "\<not> is_MergedCell (cell_at ws1 k)"
    using plain_sheetD[OF assms(4), of k] by (simp add: merged_at_def)
  have "merged_at (ws1\<lparr>freeze_panes := (if k = (1, 1) then None else Some k)\<rparr>) = merged_at ws"
    using c by (simp add: merged_at_def cell_at_def fun_eq_iff)
  then show ?thesis using a m assms(4)
    by (simp add: freeze_at_cell_def plain_sheet_def)
qed

lemma write_headers_ae_ok:
  assumes "plain_sheet ws"
  shows "\<exists>ws'. efold write_header_ae (enumerate_from 1 HEADERS) ws = Inr ws' \<and> plain_sheet ws'"
proof (rule efold_ok)
  fix x s assume x: "x \<in> set (enumerate_from 1 HEADERS)" and s: "plain_sheet s"
  have "storable (PStr (snd x))" using enumerate_from_snd[OF x] by (rule headers_storable)
  then show "\<exists>s'. write_header_ae x s = Inr s' \<and> plain_sheet s'"
    using cell_assign_plain[of "(6, fst x)" s] enumerate_from_fst[OF x] s
    by (simp add: write_header_ae_def MAX_ROW_def)
qed (rule assms)

section \<open>The last row returned by the populator\<close>

text \<open>
  Claim C1. Both versions of \<^verbatim>\<open>fill_daily_sheet\<close> return the start row plus the number
  of records of the day minus one, which is the start row minus one when the day has no
  record. The first two parts are about every call that returns. The last two parts say
  when the call does return, with that row: the start row is at least 1, the last row
  written is at most 1048576, the sheet has no merged cell object, and the seven written
  fields of every record of the day hold values that the library accepts (no control
  character in the first 32767 characters of a string).
\<close>

theorem fill_daily_sheet_last_row:
  "(\<forall>ws' last. fill_daily_sheet_wl sheet d df R = Inr (ws', last) \<longrightarrow>
      last = R + int (length (records_wl d df)) - 1 \<and>
      (records_wl d df = [] \<longrightarrow> last = R - 1)) \<and>
   (\<forall>ws' last. fill_daily_sheet_ae today sheet d df isdf R fb = Inr (ws', last) \<longrightarrow>
      last = R + int (length (records_ae d df isdf)) - 1 \<and>
      (records_ae d df isdf = [] \<longrightarrow> last = R - 1)) \<and>
   (1 \<le> R \<and> R + int (length (records_wl d df)) - 1 \<le> MAX_ROW \<and> plain_sheet sheet \<and>
    list_all storable_record (records_wl d df) \<longrightarrow>
      (\<exists>ws'. fill_daily_sheet_wl sheet d df R = Inr (ws', R + int (length (records_wl d df)) - 1))) \<and>
   (1 \<le> R \<and> R + int (length (records_ae d df isdf)) - 1 \<le> MAX_ROW \<and> plain_sheet sheet \<and>
    list_all storable_record (records_ae d df isdf) \<longrightarrow>
      (\<exists>ws'. fill_daily_sheet_ae today sheet d df isdf R fb =
               Inr (ws', R + int (length (records_ae d df isdf)) - 1)))"
proof (intro conjI allI impI)
  fix ws' last
  assume "fill_daily_sheet_wl sheet d df R = Inr (ws', last)"
  then obtain c where "write_records_wl sheet R (records_wl d df) = Inr (ws', c)" "last = c - 1"
    by (auto simp: fill_daily_sheet_wl_def split: sum.splits)
  then show l: "last = R + int (length (records_wl d df)) - 1"
    using write_records_wl_current by blast
  assume "records_wl d df = []"
  with l show "last = R - 1" by simp
next
  fix ws' last
  assume "fill_daily_sheet_ae today sheet d df isdf R fb = Inr (ws', last)"
  then obtain ws3 c where "write_records_ae ws3 R (records_ae d df isdf) = Inr (ws', c)" "last = c - 1"
    unfolding fill_daily_sheet_ae_def Let_def ebind_eq_Inr
    by (fastforce split: sum.splits prod.splits)
  then show l: "last = R + int (length (records_ae d df isdf)) - 1"
    using write_records_ae_current by blast
  assume "records_ae d df isdf = []"
  with l show "last = R - 1" by simp
next
  assume h: "1 \<le> R \<and> R + int (length (records_wl d df)) - 1 \<le> MAX_ROW \<and> plain_sheet sheet \<and>
    list_all storable_record (records_wl d df)"
  then have "list_all (\<lambda>r. list_all (\<lambda>key. storable (rec_get r key)) HEADERS) (records_wl d df)"
    by (simp add: storable_record_def[abs_def])
  then show "\<exists>ws'. fill_daily_sheet_wl sheet d df R = Inr (ws', R + int (length (records_wl d df)) - 1)"
    using write_records_wl_ok[of R "records_wl d df" sheet] h
    by (auto simp: fill_daily_sheet_wl_def)
next
  assume h: "1 \<le> R \<and> R + int (length (records_ae d df isdf)) - 1 \<le> MAX_ROW \<and> plain_sheet sheet \<and>
    list_all storable_record (records_ae d df isdf)"
  then have st: "list_all (\<lambda>r. list_all (\<lambda>key. storable (rec_get r key)) HEADERS) (records_ae d df isdf)"
    by (simp add: storable_record_def[abs_def])
  obtain ws1 where a1: "stamp_dates_ae today sheet d (records_ae d df isdf) fb = Inr ws1" "plain_sheet ws1"
    using stamp_dates_ae_ok h by blast
  obtain ws2 where a2: "freeze_at_cell ws1 (7, 1) = Inr ws2" "plain_sheet ws2"
    using freeze_at_cell_ok[of "(7, 1)" ws1] a1 by (auto simp: MAX_ROW_def)
  obtain ws3 where a3: "efold write_header_ae (enumerate_from 1 HEADERS) ws2 = Inr ws3" "plain_sheet ws3"
    using write_headers_ae_ok a2 by blast
  obtain ws4 where "write_records_ae ws3 R (records_ae d df isdf) =
      Inr (ws4, R + int (length (records_ae d df isdf)))"
    using write_records_ae_ok[of R "records_ae d df isdf" ws3] h a3 st by blast
  with a1 a2 a3
  show "\<exists>ws'. fill_daily_sheet_ae today sheet d df isdf R fb =
               Inr (ws', R + int (length (records_ae d df isdf)) - 1)"
    by (simp add: fill_daily_sheet_ae_def Let_def)
qed

theorem fill_daily_sheet_last_row_witness:
  "(1::int) \<le> 7 \<and> 7 + int (length (records_wl (Date 2024 1 2) demo_frame)) - 1 \<le> MAX_ROW \<and>
   plain_sheet demo_sheet \<and> list_all storable_record (records_wl (Date 2024 1 2) demo_frame) \<and>
   list_all storable_record (records_ae (Date 2024 1 2) demo_frame True) \<and>
   (\<exists>ws'. fill_daily_sheet_wl demo_sheet (Date 2024 1 2) demo_frame 7 = Inr (ws', 8)) \<and>
   (\<exists>ws'. fill_daily_sheet_ae (Date 2024 5 6) demo_sheet (Date 2024 1 2) demo_frame True 7 None =
            Inr (ws', 8))"
proof -
  have p: "plain_sheet demo_sheet"
    by (auto simp: plain_sheet_def merged_at_def cell_at_def demo_sheet_def)
  have n: "length (records_wl (Date 2024 1 2) demo_frame) = 2"
    by (simp add: records_wl_def df_empty_def demo_frame_def filter_date_def)
  have m: "length (records_ae (Date 2024 1 2) demo_frame True) = 2"
    by (simp add: records_ae_def df_empty_def demo_frame_def filter_date_def)
  have s: "list_all storable_record (records_wl (Date 2024 1 2) demo_frame)"
    by code_simp
  have t: "list_all storable_record (records_ae (Date 2024 1 2) demo_frame True)"
    by code_simp
  show ?thesis
    using fill_daily_sheet_last_row[of demo_sheet "Date 2024 1 2" demo_frame 7 "Date 2024 5 6" True None]
      p n m s t by (simp add: MAX_ROW_def)
qed

section \<open>The two colouring functions\<close>

text \<open>
  Claim C10, as stated: the two entry points decide the font of the Complete cell in the
  same way. They do not: \<^verbatim>\<open>work_log.py\<close> trims the value before it compares it, so a
  value with white space around \<^verbatim>\<open>yes\<close> is coloured there and left alone by
  \<^verbatim>\<open>automate_excel.py\<close>.
\<close>

theorem complete_font_differs: "complete_font_wl (PStr '' yes'') \<noteq> complete_font_ae (PStr '' yes'')"
  by code_simp

text \<open>
  Claim C10, amended: the decision of \<^verbatim>\<open>work_log.py\<close> for a value is the decision of
  \<^verbatim>\<open>automate_excel.py\<close> for the trimmed value; the two agree on every value that is not
  a string and on every string without leading or trailing white space, where white
  space is what \<^verbatim>\<open>str.strip()\<close> removes, the white space of Unicode included.
\<close>

theorem complete_font_wl_is_ae_of_strip:
  "complete_font_wl v = complete_font_ae (case v of PStr s \<Rightarrow> PStr (strip s) | _ \<Rightarrow> v) \<and>
   ((case v of PStr s \<Rightarrow> strip s = s | _ \<Rightarrow> True) \<longrightarrow> complete_font_wl v = complete_font_ae v)"
  by (cases v) (simp_all add: complete_font_wl_def complete_font_ae_def)

theorem complete_font_wl_is_ae_of_strip_witness:
  "strip ''Yes'' = ''Yes'' \<and> complete_font_wl (PStr ''Yes'') = complete_font_ae (PStr ''Yes'') \<and>
   complete_font_ae (PStr ''Yes'') = Some (Font_color ''008000'') \<and>
   strip [CHR 0xC2, CHR 0xA0, CHR ''y'', CHR ''e'', CHR ''s''] = ''yes''"
proof -
  have a: "strip ''Yes'' = ''Yes''" by code_simp
  have b: "complete_font_ae (PStr ''Yes'') = Some (Font_color ''008000'')" by code_simp
  have c: "strip [CHR 0xC2, CHR 0xA0, CHR ''y'', CHR ''e'', CHR ''s''] = ''yes''" by code_simp
  show ?thesis
    using complete_font_wl_is_ae_of_strip[of "PStr ''Yes''"] a b c by simp
qed

section \<open>The font of the Complete cell\<close>

text \<open>
  Claim C7 says that a Complete value other than \<^verbatim>\<open>yes\<close> and \<^verbatim>\<open>no\<close> leaves the cell with
  the default font that is propagated from the style row. In \<^verbatim>\<open>work_log.py\<close> the style
  row is row 7, which is also the row of the first record: the green or red font of the
  first record is assigned to the cell of the style row, and \<^verbatim>\<open>copy_cell_style\<close> carries
  it to the rows below. The evaluation fills a sheet whose cell \<^verbatim>\<open>E7\<close> has the font Arial
  10 bold with the two records of a day, \<^verbatim>\<open>Yes\<close> and \<^verbatim>\<open>maybe\<close>, from row 7: the
  conditional override assigns no font for \<^verbatim>\<open>maybe\<close>, and yet \<^verbatim>\<open>E8\<close>, which holds it, ends
  with the green font of \<^verbatim>\<open>E7\<close> and not with the font of the template.
\<close>

theorem complete_cell_font_style_row:
  "font (style_at demo_sheet (TEMPLATE_STYLE_ROW, 5)) = Font (Some ''Arial'') (Some 10) True None \<and>
   map (\<lambda>r. rec_get r ''Complete'') (records_wl (Date 2024 1 2) demo_frame) =
     [PStr ''Yes'', PStr ''maybe''] \<and>
   complete_font_wl (PStr ''Yes'') = Some (Font_color ''008000'') \<and>
   complete_font_wl (PStr ''maybe'') = None \<and>
   (case fill_daily_sheet_wl demo_sheet (Date 2024 1 2) demo_frame 7 of
      Inl e \<Rightarrow> False
    | Inr (w, last_row) \<Rightarrow>
        last_row = 8 \<and>
        value_at w (7, 5) = PStr ''Yes'' \<and> font (style_at w (7, 5)) = Font_color ''008000'' \<and>
        value_at w (8, 5) = PStr ''maybe'' \<and> font (style_at w (8, 5)) = Font_color ''008000'')"
  by code_simp

section \<open>The safe cell writer\<close>

text \<open>
  Claim C6 says that a call of \<^verbatim>\<open>safe_set_cell\<close> at a non-anchor member of a merged
  region writes the anchor of the region and leaves the addressed cell as it is. The
  function redirects a write only when the addressed cell is a merged cell object, and
  \<^verbatim>\<open>copy_worksheet\<close> puts an ordinary cell at every address and copies the merged ranges:
  in a copied sheet no write is redirected. The evaluation copies a template with the
  merged range \<^verbatim>\<open>A1:B1\<close> and writes \<^verbatim>\<open>B1\<close> of the copy: \<^verbatim>\<open>B1\<close> itself receives the value
  and the anchor \<^verbatim>\<open>A1\<close> keeps its own. On the template as it was loaded, the same call
  writes the anchor.
\<close>

theorem safe_set_cell_on_copy:
  "merged_ranges (last (copy_worksheet demo_adn [merged_sheet] 0)) = [CellRange 1 1 1 2] \<and>
   in_range (1, 2) (CellRange 1 1 1 2) \<and> anchor (CellRange 1 1 1 2) = (1, 1) \<and>
   value_at (last (copy_worksheet demo_adn [merged_sheet] 0)) (1, 1) = PStr ''DATE'' \<and>
   value_at (last (copy_worksheet demo_adn [merged_sheet] 0)) (1, 2) = PNone \<and>
   (case safe_set_cell (last (copy_worksheet demo_adn [merged_sheet] 0)) (1, 2) (PStr ''x'') of
      Inl e \<Rightarrow> False
    | Inr w \<Rightarrow> value_at w (1, 2) = PStr ''x'' \<and> value_at w (1, 1) = PStr ''DATE'') \<and>
   (case safe_set_cell merged_sheet (1, 2) (PStr ''x'') of
      Inl e \<Rightarrow> False
    | Inr w \<Rightarrow> value_at w (1, 1) = PStr ''x'' \<and> value_at w (1, 2) = PNone)"
  by code_simp

section \<open>Loops over the cells of a sheet\<close>

lemma same_frame_refl [simp]: "same_frame ws ws"
  by (simp add: same_frame_def)

lemma cleared_by_refl: "cleared_by ws T ws"
  by (simp add: cleared_by_def)

lemma cleared_by_cases:
  assumes "cleared_by ws T w"
  obtains "cell_at w k = cell_at ws k"
  | "k \<in> T" "\<not> merged_at ws k" "cell_at w k = Cell PNone (style_at ws k)"
  using assms unfolding cleared_by_def by blast

lemma cleared_by_merged_at: "cleared_by ws T w \<Longrightarrow> merged_at w = merged_at ws"
proof (rule ext)
  fix k assume c: "cleared_by ws T w"
  show "merged_at w k = merged_at ws k"
    by (rule cleared_by_cases[OF c, of k]) (simp_all add: merged_at_def)
qed

lemma cleared_by_style_at: "cleared_by ws T w \<Longrightarrow> style_at w = style_at ws"
proof (rule ext)
  fix k assume c: "cleared_by ws T w"
  show "style_at w k = style_at ws k"
    by (rule cleared_by_cases[OF c, of k]) (simp_all add: style_at_def)
qed

lemma cleared_by_ws_cell:
  assumes "cleared_by ws T w" "ws_cell w k = Inr w'"
  shows "cleared_by ws T w'"
  using assms cell_at_ws_cell[OF assms(2)] ws_cell_fields[OF assms(2)]
  by (simp add: cleared_by_def same_frame_def)

lemma efold_post_aux:
  "efold f xs s = Inr s' \<Longrightarrow> I s \<Longrightarrow> x \<in> set xs \<or> Q s \<Longrightarrow>
   \<forall>y \<in> set xs. \<forall>s1 s2. I s1 \<longrightarrow> f y s1 = Inr s2 \<longrightarrow> I s2 \<Longrightarrow>
   \<forall>s1 s2. I s1 \<longrightarrow> f x s1 = Inr s2 \<longrightarrow> Q s2 \<Longrightarrow>
   \<forall>y \<in> set xs. \<forall>s1 s2. I s1 \<longrightarrow> Q s1 \<longrightarrow> f y s1 = Inr s2 \<longrightarrow> Q s2 \<Longrightarrow>
   I s' \<and> Q s'"
proof (induction xs arbitrary: s)
  case Nil
  then show ?case by simp
next
  case (Cons a xs)
  from Cons.prems(1) obtain s1 where s1: "f a s = Inr s1" "efold f xs s1 = Inr s'"
    by (auto split: sum.splits)
  have i1: "I s1" using Cons.prems(4) Cons.prems(2) s1(1) by (meson list.set_intros(1))
  have q1: "x \<in> set xs \<or> Q s1"
  proof (cases "x = a")
    case True
    then show ?thesis using Cons.prems(5) Cons.prems(2) s1(1) by blast
  next
    case False
    show ?thesis
    proof (cases "Q s")
      case True
      then have "Q s1" using Cons.prems(6) Cons.prems(2) s1(1) by (meson list.set_intros(1))
      then show ?thesis by simp
    next
      case False
      then show ?thesis using Cons.prems(3) \<open>x \<noteq> a\<close> by auto
    qed
  qed
  show ?case
  proof (rule Cons.IH[OF s1(2) i1 q1])
    show "\<forall>y \<in> set xs. \<forall>s1 s2. I s1 \<longrightarrow> f y s1 = Inr s2 \<longrightarrow> I s2"
      using Cons.prems(4) by (meson list.set_intros(2))
    show "\<forall>s1 s2. I s1 \<longrightarrow> f x s1 = Inr s2 \<longrightarrow> Q s2"
      using Cons.prems(5) .
    show "\<forall>y \<in> set xs. \<forall>s1 s2. I s1 \<longrightarrow> Q s1 \<longrightarrow> f y s1 = Inr s2 \<longrightarrow> Q s2"
      using Cons.prems(6) by (meson list.set_intros(2))
  qed
qed

lemma efold_ok_det:
  assumes "\<And>x s. x \<in> set xs \<Longrightarrow> P s \<Longrightarrow> \<exists>s'. f x s = Inr s' \<and> P s'" "P s" "efold f xs s = Inr s'"
  shows "P s'"
proof -
  obtain t where "efold f xs s = Inr t" "P t"
    using efold_ok[of xs P f s] assms(1,2) by blast
  then show ?thesis using assms(3) by simp
qed

lemma cleared_by_step:
  assumes c: "cleared_by ws T w" and t: "t \<in> T" "\<not> merged_at ws t"
    and f: "same_frame w' w" and e: "cell_at w' = (cell_at w)(t := Cell PNone (style_at w t))"
  shows "cleared_by ws T w'"
proof -
  have s: "style_at w t = style_at ws t" using cleared_by_style_at[OF c] by simp
  have fr: "same_frame w' ws" using f c by (simp add: cleared_by_def same_frame_def)
  have "cell_at w' k = cell_at ws k \<or>
          (k \<in> T \<and> \<not> merged_at ws k \<and> cell_at w' k = Cell PNone (style_at ws k))" for k
  proof (cases "k = t")
    case True
    then show ?thesis using t e s by simp
  next
    case False
    then have "cell_at w' k = cell_at w k" using e by simp
    then show ?thesis using c unfolding cleared_by_def by metis
  qed
  then show ?thesis using fr unfolding cleared_by_def by blast
qed

lemma for_each_cell_cleared:
  assumes min: "1 \<le> min_r" and mx: "max_row_ws ws \<le> MAX_ROW"
    and tg: "\<And>k. k \<in> visited ws min_r \<Longrightarrow> tgt k \<in> T \<and> \<not> merged_at ws (tgt k)"
    and step: "\<And>w k. k \<in> visited ws min_r \<Longrightarrow> cleared_by ws T w \<Longrightarrow>
        \<exists>w'. body k w = Inr w' \<and> same_frame w' w \<and>
             cell_at w' = (cell_at w)(tgt k := Cell PNone (style_at w (tgt k)))"
  shows "\<exists>ws'. for_each_cell body min_r ws = Inr ws' \<and> cleared_by ws T ws' \<and>
           (\<forall>k \<in> visited ws min_r. cell_at ws' (tgt k) = Cell PNone (style_at ws (tgt k)))"
proof -
  define cols where "cols = [1..max_column_ws ws]"
  define rows where "rows = [min_r..max_row_ws ws]"
  define I where "I = cleared_by ws T"
  define mk where "mk = (\<lambda>row col w'. ws_cell w' (row, col))"
  define bd where "bd = (\<lambda>row col w'. body (row, col) w')"
  define R where "R = (\<lambda>row w. ebind (efold (mk row) cols w) (\<lambda>w1. efold (bd row) cols w1))"
  define Q where "Q = (\<lambda>t w. cell_at w t = Cell PNone (style_at ws t))"
  have vis: "(row, col) \<in> visited ws min_r" if "row \<in> set rows" "col \<in> set cols" for row col
    using that by (simp add: visited_def rows_def cols_def)
  have vis': "fst k \<in> set rows \<and> snd k \<in> set cols" if "k \<in> visited ws min_r" for k
    using that by (simp add: visited_def rows_def cols_def)
  have body_ok: "\<exists>w'. bd row col w = Inr w' \<and> I w'"
    if "row \<in> set rows" "col \<in> set cols" "I w" for row col w
  proof -
    from step[OF vis[OF that(1,2)]] that(3) obtain w' where
      w': "body (row, col) w = Inr w'" "same_frame w' w"
        "cell_at w' = (cell_at w)(tgt (row, col) := Cell PNone (style_at w (tgt (row, col))))"
      unfolding I_def by blast
    have "cleared_by ws T w'"
      by (rule cleared_by_step[OF _ _ _ w'(2,3)]) (use that(3) tg[OF vis[OF that(1,2)]] in \<open>auto simp: I_def\<close>)
    then show ?thesis using w'(1) by (simp add: bd_def I_def)
  qed
  have body_I: "I w'" if "row \<in> set rows" "col \<in> set cols" "I w" "bd row col w = Inr w'" for row col w w'
    using body_ok[OF that(1,2,3)] that(4) by auto
  have body_est: "Q (tgt (row, col)) w'"
    if "row \<in> set rows" "col \<in> set cols" "I w" "bd row col w = Inr w'" for row col w w'
  proof -
    from step[OF vis[OF that(1,2)]] that(3) obtain w2 where
      w2: "body (row, col) w = Inr w2"
        "cell_at w2 = (cell_at w)(tgt (row, col) := Cell PNone (style_at w (tgt (row, col))))"
      unfolding I_def by blast
    have "w2 = w'" using w2(1) that(4) by (simp add: bd_def)
    moreover have "style_at w = style_at ws" using that(3) cleared_by_style_at by (simp add: I_def)
    ultimately show ?thesis using w2(2) by (simp add: Q_def)
  qed
  have body_keep: "Q t w'"
    if "row \<in> set rows" "col \<in> set cols" "I w" "Q t w" "bd row col w = Inr w'" for row col w w' t
  proof -
    from step[OF vis[OF that(1,2)]] that(3) obtain w2 where
      w2: "body (row, col) w = Inr w2"
        "cell_at w2 = (cell_at w)(tgt (row, col) := Cell PNone (style_at w (tgt (row, col))))"
      unfolding I_def by blast
    have "w2 = w'" using w2(1) that(5) by (simp add: bd_def)
    moreover have "style_at w = style_at ws" using that(3) cleared_by_style_at by (simp add: I_def)
    ultimately show ?thesis using w2(2) that(4) by (simp add: Q_def)
  qed
  have mk_ok: "\<exists>w'. mk row col w = Inr w' \<and> I w'"
    if "row \<in> set rows" "col \<in> set cols" "I w" for row col w
  proof -
    have "1 \<le> row" "row \<le> MAX_ROW" "1 \<le> col"
      using that(1,2) min mx by (simp_all add: rows_def cols_def)
    then obtain w' where w': "ws_cell w (row, col) = Inr w'" using ws_cell_ok[of "(row, col)" w] by auto
    then show ?thesis using cleared_by_ws_cell[OF _ w'] that(3) by (simp add: mk_def I_def)
  qed
  have mk_I: "I w'" if "row \<in> set rows" "col \<in> set cols" "I w" "mk row col w = Inr w'" for row col w w'
    using mk_ok[OF that(1,2,3)] that(4) by auto
  have mk_keep: "Q t w'" if "Q t w" "mk row col w = Inr w'" for row col w w' t
    using that cell_at_ws_cell[of w "(row, col)" w'] by (simp add: Q_def mk_def)
  have mks_ok: "\<exists>w'. efold (mk row) cols w = Inr w' \<and> I w'" if "row \<in> set rows" "I w" for row w
    by (rule efold_ok) (use mk_ok[OF that(1)] that(2) in auto)
  have mks_keep: "I w' \<and> (Q t w \<longrightarrow> Q t w')" if "row \<in> set rows" "I w" "efold (mk row) cols w = Inr w'" for row w w' t
  proof -
    have "I w \<and> (Q t w \<longrightarrow> Q t w)" using that(2) by simp
    then show ?thesis
      by (rule efold_inv[where P = "\<lambda>u. I u \<and> (Q t w \<longrightarrow> Q t u)" and f = "mk row" and xs = cols and s = w,
            OF _ that(3), rotated])
         (use mk_I[OF that(1)] mk_keep in blast)
  qed
  have bds_ok: "\<exists>w'. efold (bd row) cols w = Inr w' \<and> I w'" if "row \<in> set rows" "I w" for row w
    by (rule efold_ok) (use body_ok[OF that(1)] that(2) in auto)
  have bds_keep: "I w' \<and> (Q t w \<longrightarrow> Q t w')" if "row \<in> set rows" "I w" "efold (bd row) cols w = Inr w'" for row w w' t
  proof -
    have "I w \<and> (Q t w \<longrightarrow> Q t w)" using that(2) by simp
    then show ?thesis
      by (rule efold_inv[where P = "\<lambda>u. I u \<and> (Q t w \<longrightarrow> Q t u)" and f = "bd row" and xs = cols and s = w,
            OF _ that(3), rotated])
         (use body_I[OF that(1)] body_keep[OF that(1)] in blast)
  qed
  have R_ok: "\<exists>w'. R row w = Inr w' \<and> I w'" if "row \<in> set rows" "I w" for row w
  proof -
    note p = that
    obtain w1 where w1: "efold (mk row) cols w = Inr w1" "I w1" using mks_ok[OF p] by blast
    obtain w2 where "efold (bd row) cols w1 = Inr w2" "I w2" using bds_ok[OF p(1) w1(2)] by blast
    then show ?thesis using w1 by (simp add: R_def)
  qed
  have R_keep: "I w' \<and> (Q t w \<longrightarrow> Q t w')" if "row \<in> set rows" "I w" "R row w = Inr w'" for row w w' t
  proof -
    from that(3) obtain w1 where w1: "efold (mk row) cols w = Inr w1" "efold (bd row) cols w1 = Inr w'"
      by (auto simp: R_def ebind_eq_Inr)
    show ?thesis using mks_keep[OF that(1,2) w1(1), of t] bds_keep[OF that(1) _ w1(2), of t] by blast
  qed
  have R_est: "Q (tgt (row, col)) w'" if "row \<in> set rows" "col \<in> set cols" "I w" "R row w = Inr w'" for row col w w'
  proof -
    from that(4) obtain w1 where w1: "efold (mk row) cols w = Inr w1" "efold (bd row) cols w1 = Inr w'"
      by (auto simp: R_def ebind_eq_Inr)
    have i1: "I w1" using mks_keep[OF that(1,3) w1(1)] by blast
    have "I w' \<and> Q (tgt (row, col)) w'"
      by (rule efold_post_aux[where f = "bd row" and xs = cols and s = w1 and x = col and I = I
              and Q = "Q (tgt (row, col))", OF w1(2) i1])
         (use that(2) body_I[OF that(1)] body_est[OF that(1)] body_keep[OF that(1)] in blast)+
    then show ?thesis by simp
  qed
  have i0: "I ws" by (simp add: I_def cleared_by_refl)
  obtain ws' where ws': "efold R rows ws = Inr ws'" "I ws'"
    using efold_ok[of rows I R ws] R_ok i0 by blast
  have post: "Q (tgt k) ws'" if "k \<in> visited ws min_r" for k
  proof -
    obtain row col where k: "k = (row, col)" by (cases k)
    have rc: "row \<in> set rows" "col \<in> set cols" using vis'[OF that] by (simp_all add: k)
    have "I ws' \<and> Q (tgt (row, col)) ws'"
      by (rule efold_post_aux[where f = R and xs = rows and s = ws and x = row and I = I
              and Q = "Q (tgt (row, col))", OF ws'(1) i0])
         (use rc R_keep R_est[OF rc] in blast)+
    then show ?thesis by (simp add: k)
  qed
  have "min_r \<noteq> 0" using min by simp
  then have "for_each_cell body min_r ws = efold R rows ws"
    by (simp add: for_each_cell_def Let_def R_def mk_def bd_def rows_def cols_def)
  then show ?thesis using ws' post by (auto simp: I_def Q_def)
qed

section \<open>Clearing the data rows\<close>

lemma fold_max_ge: "x \<in> set (r # rs) \<Longrightarrow> (x::int) \<le> fold max rs r"
proof -
  assume "x \<in> set (r # rs)"
  then have "x \<le> Max (set (r # rs))" by (intro Max_ge) auto
  then show ?thesis by (simp only: Max.set_eq_fold)
qed

lemma fold_max_mem: "fold max rs (r::int) \<in> set (r # rs)"
proof -
  have "Max (set (r # rs)) \<in> set (r # rs)" by (intro Max_in) auto
  then show ?thesis by (simp only: Max.set_eq_fold)
qed

lemma max_row_le:
  assumes "valid_keys ws"
  shows "max_row_ws ws \<le> MAX_ROW"
proof (cases "cells ws")
  case Nil
  then show ?thesis by (simp add: max_row_ws_def MAX_ROW_def)
next
  case (Cons p ps)
  have "max_row_ws ws \<in> set (map (\<lambda>p. fst (fst p)) (cells ws))"
    using fold_max_mem[of "map (\<lambda>p. fst (fst p)) ps" "fst (fst p)"]
    by (simp add: max_row_ws_def Cons)
  then obtain q where "q \<in> set (cells ws)" "max_row_ws ws = fst (fst q)" by auto
  then show ?thesis using assms by (auto simp: valid_keys_def)
qed

lemma key_le_max:
  assumes "map_of (cells ws) k = Some c"
  shows "fst k \<le> max_row_ws ws \<and> snd k \<le> max_column_ws ws"
proof -
  have m: "(k, c) \<in> set (cells ws)" using assms by (rule map_of_SomeD)
  then obtain p ps where ps: "cells ws = p # ps" by (cases "cells ws") auto
  have "fst k \<in> set (map (\<lambda>p. fst (fst p)) (cells ws))" using m by force
  then have a: "fst k \<le> max_row_ws ws"
    using fold_max_ge[of "fst k" "fst (fst p)" "map (\<lambda>p. fst (fst p)) ps"]
    by (simp add: max_row_ws_def ps)
  have "snd k \<in> set (map (\<lambda>p. snd (fst p)) (cells ws))" using m by force
  then have b: "snd k \<le> max_column_ws ws"
    using fold_max_ge[of "snd k" "snd (fst p)" "map (\<lambda>p. snd (fst p)) ps"]
    by (simp add: max_column_ws_def ps)
  show ?thesis using a b by simp
qed

lemma existing_visited:
  assumes "valid_keys ws" "map_of (cells ws) k = Some c" "min_r \<le> fst k"
  shows "k \<in> visited ws min_r"
proof -
  have "(k, c) \<in> set (cells ws)" using assms(2) by (rule map_of_SomeD)
  then have "1 \<le> snd k" using assms(1) by (force simp: valid_keys_def)
  then show ?thesis using key_le_max[OF assms(2)] assms(3) by (simp add: visited_def)
qed

lemma absent_value: "map_of (cells ws) k = None \<Longrightarrow> cell_at ws k = Cell PNone default_style"
  by (simp add: cell_at_def)

lemma set_value_step:
  assumes "\<not> merged_at w k" "storable v"
  shows "\<exists>w'. set_value w k v = Inr w' \<and> same_frame w' w \<and>
           cell_at w' = (cell_at w)(k := Cell (stored_value v) (bound_style v (style_at w k)))"
proof -
  obtain w' where a: "set_value w k v = Inr w'" using assms set_value_Inr_iff by blast
  show ?thesis using a set_value_Inr[OF a] set_value_fields[OF a] by (simp add: same_frame_def)
qed

lemma safe_set_cell_plain:
  assumes "\<not> merged_at w k" "1 \<le> fst k" "fst k \<le> MAX_ROW" "1 \<le> snd k" "storable v"
  shows "\<exists>w'. safe_set_cell w k v = Inr w' \<and> same_frame w' w \<and>
           cell_at w' = (cell_at w)(k := Cell (stored_value v) (bound_style v (style_at w k)))"
proof -
  obtain w1 where a: "ws_cell w k = Inr w1" using ws_cell_ok assms(2,3,4) by blast
  note c1 = cell_at_ws_cell[OF a] and f1 = ws_cell_fields[OF a]
  have m1: "\<not> merged_at w1 k" using assms(1) c1 by (simp add: merged_at_def)
  obtain w' where b: "set_value w1 k v = Inr w'" "same_frame w' w1"
    "cell_at w' = (cell_at w1)(k := Cell (stored_value v) (bound_style v (style_at w1 k)))"
    using set_value_step[OF m1 assms(5)] by blast
  have "safe_set_cell w k v = Inr w'" using a b(1) m1 by (simp add: safe_set_cell_def merged_at_def)
  then show ?thesis using b(2,3) c1 f1 by (simp add: same_frame_def style_at_def)
qed

lemma cleared_values:
  assumes v: "valid_keys ws" and c: "cleared_by ws (visited ws min_r) w"
    and p: "\<forall>k \<in> visited ws min_r. cell_at w k = Cell PNone (style_at ws k)"
  shows "(\<forall>k. min_r \<le> fst k \<longrightarrow> value_at w k = PNone) \<and>
         (\<forall>k. fst k < min_r \<longrightarrow> cell_at w k = cell_at ws k) \<and>
         style_at w = style_at ws \<and> same_frame w ws \<and> merged_at w = merged_at ws"
proof (intro conjI allI impI)
  fix k :: "int \<times> int" assume k: "min_r \<le> fst k"
  show "value_at w k = PNone"
  proof (cases "map_of (cells ws) k")
    case None
    then have d: "cell_at ws k = Cell PNone default_style" by (rule absent_value)
    show ?thesis
    proof (rule cleared_by_cases[OF c, of k])
      assume "cell_at w k = cell_at ws k"
      then show ?thesis using d by (simp add: value_at_def)
    next
      assume "cell_at w k = Cell PNone (style_at ws k)"
      then show ?thesis by (simp add: value_at_def)
    qed
  next
    case (Some c0)
    then have "k \<in> visited ws min_r" using existing_visited[OF v _ k] by simp
    then show ?thesis using p by (simp add: value_at_def)
  qed
next
  fix k :: "int \<times> int" assume "fst k < min_r"
  then have "k \<notin> visited ws min_r" by (simp add: visited_def)
  then show "cell_at w k = cell_at ws k" using c unfolding cleared_by_def by blast
next
  show "style_at w = style_at ws" using c by (rule cleared_by_style_at)
  show "same_frame w ws" using c by (simp add: cleared_by_def)
  show "merged_at w = merged_at ws" using c by (rule cleared_by_merged_at)
qed

lemma clear_plain_rows:
  assumes v: "valid_keys ws" and m: "1 \<le> start_row"
    and p: "\<forall>k. start_row \<le> fst k \<longrightarrow> \<not> merged_at ws k"
    and body: "body = (\<lambda>k w. safe_set_cell w k PNone) \<or> body = (\<lambda>k w. set_value w k PNone)"
  shows "\<exists>w. for_each_cell body start_row ws = Inr w \<and>
           (\<forall>k. start_row \<le> fst k \<longrightarrow> value_at w k = PNone) \<and>
           (\<forall>k. fst k < start_row \<longrightarrow> cell_at w k = cell_at ws k) \<and>
           style_at w = style_at ws \<and> same_frame w ws \<and> merged_at w = merged_at ws"
proof -
  have tg: "k \<in> visited ws start_row \<and> \<not> merged_at ws k" if "k \<in> visited ws start_row" for k
    using that p by (cases k) (auto simp: visited_def)
  have step: "\<exists>w'. body k w = Inr w' \<and> same_frame w' w \<and>
             cell_at w' = (cell_at w)(k := Cell PNone (style_at w k))"
    if "k \<in> visited ws start_row" "cleared_by ws (visited ws start_row) w" for w k
  proof -
    have nm: "\<not> merged_at w k" using cleared_by_merged_at[OF that(2)] tg[OF that(1)] by simp
    have vk: "1 \<le> fst k" "fst k \<le> MAX_ROW" "1 \<le> snd k"
      using that(1) m max_row_le[OF v] by (simp_all add: visited_def)
    show ?thesis
      using body safe_set_cell_plain[OF nm vk, of PNone] set_value_step[OF nm, of PNone] by auto
  qed
  obtain w where w: "for_each_cell body start_row ws = Inr w" "cleared_by ws (visited ws start_row) w"
    "\<forall>k \<in> visited ws start_row. cell_at w k = Cell PNone (style_at ws k)"
    using for_each_cell_cleared[where tgt = "\<lambda>k. k" and T = "visited ws start_row" and body = body
        and ws = ws and min_r = start_row, OF m max_row_le[OF v] tg step]
    by blast
  show ?thesis using w(1) cleared_values[OF v w(2,3)] by blast
qed

text \<open>
  Claim C8. On a sheet whose cells have valid addresses (a row from 1 to 1048576 and a
  column from 1 on, the only addresses at which the library makes a cell) and that has no
  merged cell object from the start row down (a copied sheet has none at all), both versions of
  \<^verbatim>\<open>clear_sheet_data\<close> succeed; afterwards every cell from the start row down has the
  empty value, every cell above the start row is the cell it was, and the styles, the
  merged ranges, the title, the frozen pane and the visibility are those of the sheet
  before.
\<close>

theorem clear_sheet_data_effect:
  assumes "valid_keys ws" "1 \<le> start_row" "\<forall>k. start_row \<le> fst k \<longrightarrow> \<not> merged_at ws k"
  shows "\<exists>w1 w2. clear_sheet_data_wl ws start_row = Inr w1 \<and>
           clear_sheet_data_ae ws start_row = Inr w2 \<and>
           (\<forall>k. start_row \<le> fst k \<longrightarrow> value_at w1 k = PNone \<and> value_at w2 k = PNone) \<and>
           (\<forall>k. fst k < start_row \<longrightarrow> cell_at w1 k = cell_at ws k \<and> cell_at w2 k = cell_at ws k) \<and>
           style_at w1 = style_at ws \<and> style_at w2 = style_at ws \<and>
           same_frame w1 ws \<and> same_frame w2 ws"
proof -
  obtain w1 where w1: "clear_sheet_data_wl ws start_row = Inr w1"
    "\<forall>k. start_row \<le> fst k \<longrightarrow> value_at w1 k = PNone"
    "\<forall>k. fst k < start_row \<longrightarrow> cell_at w1 k = cell_at ws k" "style_at w1 = style_at ws" "same_frame w1 ws"
    using clear_plain_rows[OF assms, of "\<lambda>k w. safe_set_cell w k PNone"]
    unfolding clear_sheet_data_wl_def by blast
  obtain w2 where w2: "clear_sheet_data_ae ws start_row = Inr w2"
    "\<forall>k. start_row \<le> fst k \<longrightarrow> value_at w2 k = PNone"
    "\<forall>k. fst k < start_row \<longrightarrow> cell_at w2 k = cell_at ws k" "style_at w2 = style_at ws" "same_frame w2 ws"
    using clear_plain_rows[OF assms, of "\<lambda>k w. set_value w k PNone"]
    unfolding clear_sheet_data_ae_def by blast
  show ?thesis using w1 w2 by blast
qed

lemma map_of_copy_cells:
  "map_of (copy_cells cs) k = map_option (\<lambda>c. Cell (value_of c) (style_of c)) (map_of cs k)"
  by (induction cs) (auto simp: copy_cells_def)

lemma copied_sheet_plain: "plain_sheet (last (copy_worksheet adn wb i))"
  by (auto simp: plain_sheet_def merged_at_def cell_at_def copy_worksheet_def map_of_copy_cells
      split: option.splits)

lemma copied_sheet_valid_keys:
  "valid_keys (wb ! i) \<Longrightarrow> valid_keys (last (copy_worksheet adn wb i))"
  by (auto simp: valid_keys_def copy_worksheet_def copy_cells_def)

lemma copied_sheet_cell_at:
  "cell_at (last (copy_worksheet adn wb i)) k =
     Cell (value_at (wb ! i) k) (style_at (wb ! i) k)"
  by (auto simp: cell_at_def value_at_def style_at_def copy_worksheet_def map_of_copy_cells
      split: option.splits)

theorem clear_sheet_data_effect_witness:
  "merged_at merged_template (7, 1) \<and>
   valid_keys (last (copy_worksheet demo_adn [merged_template] 0)) \<and>
   plain_sheet (last (copy_worksheet demo_adn [merged_template] 0)) \<and>
   (\<exists>w1 w2. clear_sheet_data_wl (last (copy_worksheet demo_adn [merged_template] 0)) 7 = Inr w1 \<and>
      clear_sheet_data_ae (last (copy_worksheet demo_adn [merged_template] 0)) 7 = Inr w2 \<and>
      value_at w1 (7, 2) = PNone \<and> value_at w2 (7, 2) = PNone \<and>
      value_at w1 (6, 1) = PStr ''Number'' \<and> value_at w2 (6, 1) = PStr ''Number'')"
proof -
  define c where "c = last (copy_worksheet demo_adn [merged_template] 0)"
  have m: "merged_at merged_template (7, 1)"
    by (simp add: merged_at_def cell_at_def merged_template_def)
  have vt: "valid_keys merged_template"
    by (simp add: valid_keys_def merged_template_def MAX_ROW_def)
  have v: "valid_keys c" unfolding c_def using copied_sheet_valid_keys[of "[merged_template]" 0] vt by simp
  have p: "plain_sheet c" unfolding c_def by (rule copied_sheet_plain)
  have h: "\<forall>k. 7 \<le> fst k \<longrightarrow> \<not> merged_at c k" using p unfolding plain_sheet_def by blast
  have six: "value_at c (6, 1) = PStr ''Number''"
    unfolding c_def
    by (simp add: value_at_def copied_sheet_cell_at) (simp add: value_at_def cell_at_def merged_template_def)
  from clear_sheet_data_effect[OF v _ h] obtain w1 w2 where
    w: "clear_sheet_data_wl c 7 = Inr w1" "clear_sheet_data_ae c 7 = Inr w2"
      "\<forall>k. 7 \<le> fst k \<longrightarrow> value_at w1 k = PNone \<and> value_at w2 k = PNone"
      "\<forall>k. fst k < 7 \<longrightarrow> cell_at w1 k = cell_at c k \<and> cell_at w2 k = cell_at c k"
    by auto
  have a: "value_at w1 (7, 2) = PNone" "value_at w2 (7, 2) = PNone" using w(3) by auto
  have b: "value_at w1 (6, 1) = PStr ''Number''" "value_at w2 (6, 1) = PStr ''Number''"
    using w(4) six by (auto simp: value_at_def)
  show ?thesis using m v p w(1,2) a b unfolding c_def by blast
qed

end
